theory Spec2Isabelle
  imports Main "HOL-Library.Sublist"
begin

section \<open>Dataset ingestion: \<open>DatabaseConnection.addDataset\<close> and its loaders\<close>

text \<open>
  The theory embeds \<^verbatim>\<open>src/src/DatabaseConnection.py\<close>: the coordinator
  \<^verbatim>\<open>addDataset\<close>, the registrar \<^verbatim>\<open>__addDatasetEntry\<close>, the metadata loader
  \<^verbatim>\<open>__addMetaDataset\<close> and the purchase loader \<^verbatim>\<open>__addPurchasesDataset\<close>.
  The private methods keep their names without the leading underscores.

  What the code calls but does not define (pandas, the SQLAlchemy engine and session,
  the psycopg2 cursor, the file system, the logger, the clock) is modelled as follows.
  \<^item> A pandas DataFrame is a \<open>frame\<close>: the column labels in order and the rows in
    index order, each row a list of cells in column order. A cell is \<open>None\<close> for a
    missing value (NaN) and \<open>Some text\<close> otherwise.
  \<^item> The file system and \<^verbatim>\<open>pd.read_csv\<close> are the read-only \<open>env\<close>: what
    \<^verbatim>\<open>Path(f).is_file()\<close> answers and what \<^verbatim>\<open>pd.read_csv(f, sep=c)\<close> returns
    or raises, for every path and separator.
  \<^item> The store is a \<open>store\<close>. Every call that leaves the class (schema reflection, a
    query, an insert, a file test, a CSV read, a bulk copy, a commit, a log line) is an
    \<open>event\<close>, appended to the store's \<open>trace\<close> in program order together with its
    effect on the tables.
  \<^item> An exception is a value \<open>Inl e\<close>; the store reached when it was raised is returned
    beside it, since writes made before a raise are not undone by the class.
  The database is taken to be reachable and to hold the tables the class names
  (\<^verbatim>\<open>dataset\<close>, \<^verbatim>\<open>article\<close>, \<^verbatim>\<open>article_attribute\<close>, \<^verbatim>\<open>customer\<close>,
  \<^verbatim>\<open>customer_attribute\<close>, \<^verbatim>\<open>purchase\<close>); the exceptions of the model are those of
  reading a CSV and that of a bulk copy whose target column list names a column twice.
\<close>

subsection \<open>DataFrames\<close>

type_synonym cell = "string option"

record frame =
  columns :: "string list"
  rows :: "cell list list"

text \<open>A frame that \<^verbatim>\<open>pd.read_csv\<close> returns is rectangular (short lines are padded with
  missing cells) and its labels are pairwise different (a repeated header is renamed
  \<^verbatim>\<open>x.1\<close>, \<^verbatim>\<open>x.2\<close>, ...).\<close>

definition wf_frame :: "frame \<Rightarrow> bool" where
  "wf_frame df \<longleftrightarrow>
     distinct (columns df) \<and> list_all (\<lambda>r. length r = length (columns df)) (rows df)"

text \<open>\<^verbatim>\<open>df[[c]]\<close>: the columns labelled \<open>c\<close>, as a frame.\<close>

definition getitem_frame :: "frame \<Rightarrow> string \<Rightarrow> frame" where
  "getitem_frame df c =
     \<lparr>columns = filter (\<lambda>n. n = c) (columns df),
      rows = map (\<lambda>r. map snd (filter (\<lambda>p. fst p = c) (zip (columns df) r))) (rows df)\<rparr>"

text \<open>\<^verbatim>\<open>df[c]\<close> for a label that occurs once: the column's cells in row order.
  The loaders only read labels taken from \<^verbatim>\<open>list(df)\<close>, so the KeyError of a missing
  label cannot arise there; the model returns a missing cell for it.\<close>

definition cell_of :: "string list \<Rightarrow> cell list \<Rightarrow> string \<Rightarrow> cell" where
  "cell_of cols r c = (case map_of (zip cols r) c of Some v \<Rightarrow> v | None \<Rightarrow> None)"

definition getitem_series :: "frame \<Rightarrow> string \<Rightarrow> cell list" where
  "getitem_series df c = map (\<lambda>r. cell_of (columns df) r c) (rows df)"

text \<open>\<^verbatim>\<open>df[c] = v\<close> for a scalar \<open>v\<close>: an existing column \<open>c\<close> is overwritten in place,
  a new one is appended on the right.\<close>

definition setitem_scalar :: "frame \<Rightarrow> string \<Rightarrow> cell \<Rightarrow> frame" where
  "setitem_scalar df c v =
     (if c \<in> set (columns df)
      then df\<lparr>rows := map (\<lambda>r. map (\<lambda>p. if fst p = c then v else snd p) (zip (columns df) r)) (rows df)\<rparr>
      else \<lparr>columns = columns df @ [c], rows = map (\<lambda>r. r @ [v]) (rows df)\<rparr>)"

text \<open>\<^verbatim>\<open>df[c] = series\<close> where the series has the index of \<open>df\<close> (both come from the
  same CSV frame, whose index is 0, 1, 2, ...): the values are assigned row by row.\<close>

definition setitem_series :: "frame \<Rightarrow> string \<Rightarrow> cell list \<Rightarrow> frame" where
  "setitem_series df c vs =
     (if c \<in> set (columns df)
      then df\<lparr>rows := map (\<lambda>(r, v). map (\<lambda>p. if fst p = c then v else snd p) (zip (columns df) r))
                           (zip (rows df) vs)\<rparr>
      else \<lparr>columns = columns df @ [c], rows = map (\<lambda>(r, v). r @ [v]) (zip (rows df) vs)\<rparr>)"

text \<open>\<^verbatim>\<open>df.dropna(how="any", axis=0)\<close>: the rows with no missing cell.\<close>

definition dropna_any :: "frame \<Rightarrow> frame" where
  "dropna_any df = df\<lparr>rows := filter (\<lambda>r. list_all (\<lambda>x. x \<noteq> None) r) (rows df)\<rparr>"

text \<open>\<^verbatim>\<open>df.rename(columns={old: new}, inplace=True)\<close>.\<close>

definition rename_column :: "frame \<Rightarrow> string \<Rightarrow> string \<Rightarrow> frame" where
  "rename_column df old new = df\<lparr>columns := map (\<lambda>c. if c = old then new else c) (columns df)\<rparr>"

text \<open>\<^verbatim>\<open>df.drop_duplicates(subset=ks, inplace=True)\<close> with the default
  \<^verbatim>\<open>keep="first"\<close>: a row's key is its cells in the columns whose label is in \<open>ks\<close>;
  a row is dropped when an earlier row has the same key (two missing cells compare
  equal). The loader calls it only after it has checked or created every label of
  \<open>ks\<close>, so pandas' KeyError for an unknown label cannot arise.\<close>

definition key_of :: "string list \<Rightarrow> string list \<Rightarrow> cell list \<Rightarrow> cell list" where
  "key_of cols ks r = map snd (filter (\<lambda>p. fst p \<in> set ks) (zip cols r))"

fun first_occurrences :: "('r \<Rightarrow> 'k) \<Rightarrow> 'k list \<Rightarrow> 'r list \<Rightarrow> 'r list" where
  "first_occurrences key seen [] = []"
| "first_occurrences key seen (r # rs) =
     (if key r \<in> set seen then first_occurrences key seen rs
      else r # first_occurrences key (key r # seen) rs)"

definition drop_duplicates :: "frame \<Rightarrow> string list \<Rightarrow> frame" where
  "drop_duplicates df ks = df\<lparr>rows := first_occurrences (key_of (columns df) ks) [] (rows df)\<rparr>"

subsection \<open>The environment and the store\<close>

datatype py_error = FileNotFoundError | EmptyDataError | ParserError | DuplicateColumn

record env =
  is_file :: "string \<Rightarrow> bool"
  read_csv :: "string \<Rightarrow> char \<Rightarrow> py_error + frame"
  elapsed :: string

text \<open>\<open>elapsed env\<close> is the text of \<^verbatim>\<open>math.floor(duration)\<close> in the closing log line;
  wall-clock time is not modelled.\<close>

type_synonym db_row = "string list option \<times> cell list"

datatype event =
    Reflect
  | Log string
  | LogError string
  | Query string
  | EngineInsert string string
  | IsFile string
  | ReadCsv string char
  | CopyFrom string "string list option" "cell list list"
  | Commit

text \<open>
  \<^item> \<open>dataset_tbl\<close>: the rows (name, uploaded_by) of table \<^verbatim>\<open>dataset\<close>. The class writes
    them with \<^verbatim>\<open>self.engine.execute\<close>, SQLAlchemy's connectionless execution, which
    runs the INSERT on a connection of its own and commits it at once.
  \<^item> \<open>pending\<close>: the rows copied through the cursor of the session's connection and not
    yet committed, each with its table and the target columns given to
    \<^verbatim>\<open>copy_from\<close> (\<open>None\<close> when the call names no columns).
  \<^item> \<open>durable\<close>: the committed rows of the bulk-loaded tables.
  \<^item> \<open>as_stored\<close>: the cell that the database reads back from the text that
    \<^verbatim>\<open>to_csv\<close> writes for a cell of a frame. The class defines neither side of this
    (how pandas prints a number, quotes a text or writes a missing value, and how
    \<^verbatim>\<open>COPY\<close> reads a field, its escapes and the null text), so it is a parameter of the
    store, applied cell by cell to every row that a copy writes. Cells whose text breaks
    the buffer's lines or fields (a tab or a line break inside a text) are outside the
    model.
  A bulk copy whose target column list names a column twice is rejected by the database
  whatever the schema (\<open>accepted\<close>): it writes nothing and \<^verbatim>\<open>copy_from\<close> raises. The
  constraints of the schema itself (keys, foreign keys, the columns a table has) are not
  part of the class and are not modelled: every other copy succeeds.
\<close>

record store =
  dataset_tbl :: "(string \<times> string) list"
  durable :: "(string \<times> db_row) list"
  pending :: "(string \<times> db_row) list"
  trace :: "event list"
  as_stored :: "cell \<Rightarrow> cell"

definition accepted :: "string list option \<Rightarrow> bool" where
  "accepted cs = (case cs of None \<Rightarrow> True | Some cols \<Rightarrow> distinct cols)"

definition effect :: "event \<Rightarrow> store \<Rightarrow> store" where
  "effect e s =
     (case e of
        EngineInsert n u \<Rightarrow> s\<lparr>dataset_tbl := dataset_tbl s @ [(n, u)]\<rparr>
      | CopyFrom t cs rs \<Rightarrow>
          (if accepted cs
           then s\<lparr>pending := pending s @ map (\<lambda>r. (t, (cs, map (as_stored s) r))) rs\<rparr>
           else s)
      | Commit \<Rightarrow> s\<lparr>durable := durable s @ pending s, pending := []\<rparr>
      | _ \<Rightarrow> s)"

definition emit :: "event \<Rightarrow> store \<Rightarrow> store" where
  "emit e s = (effect e s)\<lparr>trace := trace s @ [e]\<rparr>"

text \<open>\<open>run evs s\<close>: the store after the events \<open>evs\<close>, in order. \<open>copied f evs\<close>: the
  rows that the accepted bulk copies among \<open>evs\<close> write, in order, in a store whose
  \<open>as_stored\<close> is \<open>f\<close>.\<close>

definition run :: "event list \<Rightarrow> store \<Rightarrow> store" where
  "run evs s = fold emit evs s"

fun copied :: "(cell \<Rightarrow> cell) \<Rightarrow> event list \<Rightarrow> (string \<times> db_row) list" where
  "copied f [] = []"
| "copied f (CopyFrom t cs rs # evs) =
     (if accepted cs then map (\<lambda>r. (t, (cs, map f r))) rs else []) @ copied f evs"
| "copied f (e # evs) = copied f evs"

text \<open>\<open>load_event tables e\<close>: \<open>e\<close> is what a loader does after it has read its CSV,
  a bulk copy into one of \<open>tables\<close> or an error line.\<close>

definition load_event :: "string list \<Rightarrow> event \<Rightarrow> bool" where
  "load_event tables e =
     (case e of CopyFrom t cs rs \<Rightarrow> t \<in> set tables | LogError m \<Rightarrow> True | _ \<Rightarrow> False)"

text \<open>\<open>session_event e\<close>: \<open>e\<close> is neither an insert through the engine nor a commit.\<close>

definition session_event :: "event \<Rightarrow> bool" where
  "session_event e = (case e of EngineInsert n u \<Rightarrow> False | Commit \<Rightarrow> False | _ \<Rightarrow> True)"

text \<open>\<open>comma_read e\<close>: if \<open>e\<close> is a CSV read, its separator is the comma.
  \<open>reaches s s'\<close>: \<open>s'\<close> comes from \<open>s\<close> by events that all satisfy \<open>comma_read\<close>.\<close>

definition comma_read :: "event \<Rightarrow> bool" where
  "comma_read e = (case e of ReadCsv f sep \<Rightarrow> sep = CHR '','' | _ \<Rightarrow> True)"

definition reaches :: "store \<Rightarrow> store \<Rightarrow> bool" where
  "reaches s s' \<longleftrightarrow> (\<exists>evs. s' = run evs s \<and> list_all comma_read evs)"

definition dquote :: string where
  "dquote = [CHR 0x22]"

text \<open>\<^verbatim>\<open>Logger.log\<close>, \<^verbatim>\<open>Logger.logError\<close>, \<^verbatim>\<open>self.meta_data.reflect()\<close>,
  \<^verbatim>\<open>self.session.commit()\<close>.\<close>

definition Logger_log :: "string \<Rightarrow> store \<Rightarrow> store" where
  "Logger_log msg s = emit (Log msg) s"

definition Logger_logError :: "string \<Rightarrow> store \<Rightarrow> store" where
  "Logger_logError msg s = emit (LogError msg) s"

definition reflect :: "store \<Rightarrow> store" where
  "reflect s = emit Reflect s"

definition session_commit :: "store \<Rightarrow> store" where
  "session_commit s = emit Commit s"

text \<open>\<^verbatim>\<open>self.queryTable(datasets_table, {"name": n}).first()\<close>: the first dataset row
  named \<open>n\<close>, if any.\<close>

definition queryTable_first :: "store \<Rightarrow> string \<Rightarrow> (string \<times> string) option \<times> store" where
  "queryTable_first s n = (find (\<lambda>row. fst row = n) (dataset_tbl s), emit (Query n) s)"

text \<open>\<^verbatim>\<open>insertRow(datasets_table, {"name": n, "uploaded_by": u})\<close>.\<close>

definition insertRow :: "store \<Rightarrow> string \<Rightarrow> string \<Rightarrow> store" where
  "insertRow s n u = emit (EngineInsert n u) s"

text \<open>\<^verbatim>\<open>to_csv(output, sep='\t', header=False, index=False)\<close> followed by
  \<^verbatim>\<open>cursor.copy_from(output, table, sep='\t', null='', columns=cs)\<close>. The event records
  the call with the rows of the frame as they are handed over. An accepted copy adds the
  rows, in order and as the database reads them back (\<open>as_stored\<close>), to the pending rows
  of the table and returns; a rejected one adds nothing and raises \<^verbatim>\<open>DuplicateColumn\<close>
  (a psycopg2 error). The rows copied before it stay pending in the model; the class
  issues no commit once a copy has raised.\<close>

definition copy_from ::
  "store \<Rightarrow> frame \<Rightarrow> string \<Rightarrow> string list option \<Rightarrow> py_error option \<times> store" where
  "copy_from s df t cs =
     (if accepted cs then None else Some DuplicateColumn, emit (CopyFrom t cs (rows df)) s)"

definition pd_read_csv :: "env \<Rightarrow> store \<Rightarrow> string \<Rightarrow> char \<Rightarrow> (py_error + frame) \<times> store" where
  "pd_read_csv e s f c = (read_csv e f c, emit (ReadCsv f c) s)"

subsection \<open>The registrar\<close>

definition addDatasetEntry :: "store \<Rightarrow> string \<Rightarrow> string \<Rightarrow> bool \<times> store" where
  "addDatasetEntry s dataset_name uploader_name =
     (case queryTable_first s dataset_name of
        (Some row, s1) \<Rightarrow>
          (False, Logger_logError (''Couldn't add dataset '' @ dataset_name @ '', it already exists'') s1)
      | (None, s1) \<Rightarrow> (True, insertRow s1 dataset_name uploader_name))"

subsection \<open>The metadata loader\<close>

text \<open>The error both loaders log for a required column \<open>c\<close> that the CSV lacks:
  \<^verbatim>\<open>Could not find "c" column in dataset_name\<close>, the quotes included.\<close>

definition missing_column_error :: "string \<Rightarrow> string \<Rightarrow> string" where
  "missing_column_error c dataset_name =
     ''Could not find '' @ dquote @ c @ dquote @ '' column in '' @ dataset_name"

definition identity_frame :: "frame \<Rightarrow> string \<Rightarrow> string \<Rightarrow> frame" where
  "identity_frame df_csv dataset_name meta_data_type =
     setitem_scalar (getitem_frame df_csv (meta_data_type @ ''_id'')) ''dataset_name'' (Some dataset_name)"

definition attribute_frame :: "frame \<Rightarrow> string \<Rightarrow> string \<Rightarrow> string \<Rightarrow> frame" where
  "attribute_frame df_csv dataset_name meta_data_type attribute_name =
     (let df0 = getitem_frame df_csv (meta_data_type @ ''_id'');
          df1 = setitem_scalar df0 ''dataset_name'' (Some dataset_name);
          df2 = setitem_scalar df1 ''attribute'' (Some attribute_name);
          df3 = setitem_series df2 ''value'' (getitem_series df_csv attribute_name);
          df4 = setitem_scalar df3 ''type'' (Some ''0'')
      in dropna_any df4)"

text \<open>The bulk copy that one round of the loop over the attribute columns issues.\<close>

definition attribute_copy :: "frame \<Rightarrow> string \<Rightarrow> string \<Rightarrow> string \<Rightarrow> event" where
  "attribute_copy df_csv dataset_name meta_data_type attribute_name =
     (let df = attribute_frame df_csv dataset_name meta_data_type attribute_name
      in CopyFrom (meta_data_type @ ''_attribute'') (Some (columns df)) (rows df))"

text \<open>The loop over the attribute columns; a copy that raises ends it.\<close>

fun attribute_loop ::
  "frame \<Rightarrow> string \<Rightarrow> string \<Rightarrow> string list \<Rightarrow> store \<Rightarrow> py_error option \<times> store" where
  "attribute_loop df_csv dataset_name meta_data_type [] s = (None, s)"
| "attribute_loop df_csv dataset_name meta_data_type (attribute_name # names) s =
     (if attribute_name = meta_data_type @ ''_id''
      then attribute_loop df_csv dataset_name meta_data_type names s
      else
        (let df = attribute_frame df_csv dataset_name meta_data_type attribute_name
         in case copy_from s df (meta_data_type @ ''_attribute'') (Some (columns df)) of
              (Some err, s1) \<Rightarrow> (Some err, s1)
            | (None, s1) \<Rightarrow> attribute_loop df_csv dataset_name meta_data_type names s1))"

definition addMetaDataset ::
  "env \<Rightarrow> store \<Rightarrow> string \<Rightarrow> string \<Rightarrow> string \<Rightarrow> (py_error + bool) \<times> store" where
  "addMetaDataset e s dataset_name meta_data_filename meta_data_type =
     (case pd_read_csv e (reflect s) meta_data_filename (CHR '','') of
        (Inl err, s1) \<Rightarrow> (Inl err, s1)
      | (Inr df_csv, s1) \<Rightarrow>
          (let attribute_names = columns df_csv in
           if meta_data_type @ ''_id'' \<notin> set attribute_names
           then (Inr False,
                 Logger_logError (missing_column_error (meta_data_type @ ''_id'') dataset_name) s1)
           else
             (case copy_from s1 (identity_frame df_csv dataset_name meta_data_type)
                     meta_data_type None of
                (Some err, s2) \<Rightarrow> (Inl err, s2)
              | (None, s2) \<Rightarrow>
                  (case attribute_loop df_csv dataset_name meta_data_type attribute_names s2 of
                     (Some err, s3) \<Rightarrow> (Inl err, s3)
                   | (None, s3) \<Rightarrow> (Inr True, s3)))))"

subsection \<open>The purchase loader\<close>

definition purchase_frame :: "frame \<Rightarrow> string \<Rightarrow> frame" where
  "purchase_frame df_csv dataset_name =
     (let df1 = setitem_scalar df_csv ''dataset_name'' (Some dataset_name);
          df2 = rename_column df1 ''t_dat'' ''timestamp''
      in drop_duplicates df2 [''dataset_name'', ''customer_id'', ''article_id'', ''timestamp''])"

text \<open>For the statements about the purchase load: the rows of the CSV once the dataset
  name is attached (before duplicates are dropped), the label that a CSV label has in the
  loaded frame, and the key of a row of the loaded frame.\<close>

definition tagged_rows :: "frame \<Rightarrow> string \<Rightarrow> cell list list" where
  "tagged_rows df_csv dataset_name = rows (setitem_scalar df_csv ''dataset_name'' (Some dataset_name))"

definition loaded_label :: "string \<Rightarrow> string" where
  "loaded_label c = (if c = ''t_dat'' then ''timestamp'' else c)"

definition purchase_key :: "frame \<Rightarrow> string \<Rightarrow> cell list \<Rightarrow> cell list" where
  "purchase_key df_csv dataset_name =
     key_of (columns (purchase_frame df_csv dataset_name))
       [''dataset_name'', ''customer_id'', ''article_id'', ''timestamp'']"

definition addPurchasesDataset ::
  "env \<Rightarrow> store \<Rightarrow> string \<Rightarrow> string \<Rightarrow> (py_error + bool) \<times> store" where
  "addPurchasesDataset e s dataset_name purchases_data_filename =
     (case pd_read_csv e (reflect s) purchases_data_filename (CHR '','') of
        (Inl err, s1) \<Rightarrow> (Inl err, s1)
      | (Inr df_csv, s1) \<Rightarrow>
          (let attribute_names = columns df_csv in
           if ''customer_id'' \<notin> set attribute_names
           then (Inr False, Logger_logError (missing_column_error ''customer_id'' dataset_name) s1)
           else if ''article_id'' \<notin> set attribute_names
           then (Inr False, Logger_logError (missing_column_error ''article_id'' dataset_name) s1)
           else if ''price'' \<notin> set attribute_names
           then (Inr False, Logger_logError (missing_column_error ''price'' dataset_name) s1)
           else if ''t_dat'' \<notin> set attribute_names
           then (Inr False, Logger_logError (missing_column_error ''t_dat'' dataset_name) s1)
           else
             (let df = purchase_frame df_csv dataset_name
              in case copy_from s1 df ''purchase'' (Some (columns df)) of
                   (Some err, s2) \<Rightarrow> (Inl err, s2)
                 | (None, s2) \<Rightarrow> (Inr True, s2))))"

subsection \<open>The coordinator\<close>

fun check_files :: "env \<Rightarrow> string list \<Rightarrow> store \<Rightarrow> store" where
  "check_files e [] s = s"
| "check_files e (filename # filenames) s =
     (let s1 = emit (IsFile filename) s
      in check_files e filenames
           (if is_file e filename then s1 else Logger_logError (''Could not find '' @ filename) s1))"

text \<open>The events of the loop over the three file names.\<close>

definition validation_events :: "env \<Rightarrow> string list \<Rightarrow> event list" where
  "validation_events e filenames =
     concat (map (\<lambda>f. if is_file e f then [IsFile f]
                         else [IsFile f, LogError (''Could not find '' @ f)]) filenames)"

text \<open>For the statements about whole ingestions: the events of a metadata load and of a
  purchase load after the CSV has been read, when no copy is rejected. A metadata load
  logs the missing identity column, or copies the identity rows and then one attribute
  frame per other column, in column order; a purchase load logs the first missing
  required column, or copies the purchase frame.\<close>

definition meta_load_events :: "frame \<Rightarrow> string \<Rightarrow> string \<Rightarrow> event list" where
  "meta_load_events df_csv dataset_name meta_data_type =
     (if meta_data_type @ ''_id'' \<in> set (columns df_csv)
      then CopyFrom meta_data_type None (rows (identity_frame df_csv dataset_name meta_data_type))
           # map (attribute_copy df_csv dataset_name meta_data_type)
               (filter (\<lambda>a. a \<noteq> meta_data_type @ ''_id'') (columns df_csv))
      else [LogError (missing_column_error (meta_data_type @ ''_id'') dataset_name)])"

definition purchase_load_events :: "frame \<Rightarrow> string \<Rightarrow> event list" where
  "purchase_load_events df_csv dataset_name =
     (case find (\<lambda>c. c \<notin> set (columns df_csv))
             [''customer_id'', ''article_id'', ''price'', ''t_dat''] of
        Some c \<Rightarrow> [LogError (missing_column_error c dataset_name)]
      | None \<Rightarrow>
          [CopyFrom ''purchase'' (Some (columns (purchase_frame df_csv dataset_name)))
             (rows (purchase_frame df_csv dataset_name))])"

text \<open>\<^verbatim>\<open>addDataset\<close> returns \<^verbatim>\<open>False\<close> (\<open>Some False\<close>) when the registrar refuses the
  name and falls off its end (\<open>None\<close>) otherwise.\<close>

definition addDataset ::
  "env \<Rightarrow> store \<Rightarrow> string \<Rightarrow> string \<Rightarrow> string \<Rightarrow> string \<Rightarrow> string
     \<Rightarrow> (py_error + bool option) \<times> store" where
  "addDataset e s dataset_name uploader_name purchase_data_filename article_data_filename
       customer_data_filename =
     (let s1 = Logger_log (''Adding dataset '' @ dataset_name) (reflect s) in
      case addDatasetEntry s1 dataset_name uploader_name of
        (False, s2) \<Rightarrow> (Inr (Some False), s2)
      | (True, s2) \<Rightarrow>
          (let s3 = check_files e
                      [purchase_data_filename, article_data_filename, customer_data_filename] s2
           in case addMetaDataset e s3 dataset_name article_data_filename ''article'' of
                (Inl err, s4) \<Rightarrow> (Inl err, s4)
              | (Inr ok_a, s4) \<Rightarrow>
                  (case addMetaDataset e s4 dataset_name customer_data_filename ''customer'' of
                     (Inl err, s5) \<Rightarrow> (Inl err, s5)
                   | (Inr ok_c, s5) \<Rightarrow>
                       (case addPurchasesDataset e s5 dataset_name purchase_data_filename of
                          (Inl err, s6) \<Rightarrow> (Inl err, s6)
                        | (Inr ok_p, s6) \<Rightarrow>
                            (Inr None,
                             Logger_log (''Added dataset '' @ dquote @ dataset_name @ dquote
                                         @ '' in '' @ elapsed e @ '' seconds'')
                               (session_commit s6))))))"

subsection \<open>Sample files\<close>

text \<open>A small file system for the examples: what \<^verbatim>\<open>pd.read_csv\<close> returns for each sample
  file with the comma and with the semicolon as separator. \<^verbatim>\<open>articles_semicolon.csv\<close>
  holds the articles with \<^verbatim>\<open>;\<close> between the fields, so the comma reads one column.\<close>

definition ex_articles :: frame where
  "ex_articles =
     \<lparr>columns = [''article_id'', ''product_code'', ''colour''],
      rows = [[Some ''1'', Some ''108'', Some ''red''],
              [Some ''2'', Some ''108'', None],
              [Some ''3'', None, Some ''blue'']]\<rparr>"

definition ex_articles_repeated :: frame where
  "ex_articles_repeated =
     \<lparr>columns = [''article_id'', ''colour''],
      rows = [[Some ''1'', Some ''red''], [Some ''2'', Some ''blue''], [Some ''2'', Some ''blue'']]\<rparr>"

definition ex_articles_no_id :: frame where
  "ex_articles_no_id =
     \<lparr>columns = [''product_code'', ''colour''],
      rows = [[Some ''108'', Some ''red'']]\<rparr>"

definition ex_articles_one_column :: frame where
  "ex_articles_one_column =
     \<lparr>columns = [''article_id;product_code;colour''],
      rows = [[Some ''1;108;red''], [Some ''2;108;''], [Some ''3;;blue'']]\<rparr>"

definition ex_customers :: frame where
  "ex_customers =
     \<lparr>columns = [''customer_id'', ''age''],
      rows = [[Some ''10'', Some ''31''], [Some ''11'', None]]\<rparr>"

definition ex_purchases :: frame where
  "ex_purchases =
     \<lparr>columns = [''t_dat'', ''customer_id'', ''article_id'', ''price'', ''sales_channel_id''],
      rows = [[Some ''2020-01-01'', Some ''10'', Some ''1'', Some ''0.5'', Some ''1''],
              [Some ''2020-01-02'', Some ''10'', Some ''2'', Some ''0.7'', Some ''2''],
              [Some ''2020-01-02'', Some ''11'', Some ''2'', Some ''0.7'', Some ''2''],
              [Some ''2020-01-01'', Some ''10'', Some ''1'', Some ''0.5'', Some ''1''],
              [Some ''2020-01-03'', Some ''11'', Some ''3'', Some ''0.9'', Some ''1'']]\<rparr>"

text \<open>A purchase file that has a column \<^verbatim>\<open>timestamp\<close> of its own beside \<^verbatim>\<open>t_dat\<close>; its
  two rows are the same customer, article and event date.\<close>

definition ex_purchases_own_timestamp :: frame where
  "ex_purchases_own_timestamp =
     \<lparr>columns = [''t_dat'', ''timestamp'', ''customer_id'', ''article_id'', ''price''],
      rows = [[Some ''2020-01-01'', Some ''09:00'', Some ''10'', Some ''1'', Some ''0.5''],
              [Some ''2020-01-01'', Some ''17:30'', Some ''10'', Some ''1'', Some ''0.5'']]\<rparr>"

definition ex_purchases_no_price :: frame where
  "ex_purchases_no_price =
     \<lparr>columns = [''t_dat'', ''customer_id'', ''article_id''],
      rows = [[Some ''2020-01-01'', Some ''10'', Some ''1'']]\<rparr>"

definition comma_parse :: "(string \<times> frame) list" where
  "comma_parse =
     [(''articles.csv'', ex_articles),
      (''articles_repeated.csv'', ex_articles_repeated),
      (''articles_no_id.csv'', ex_articles_no_id),
      (''articles_semicolon.csv'', ex_articles_one_column),
      (''customers.csv'', ex_customers),
      (''purchases.csv'', ex_purchases),
      (''purchases_own_timestamp.csv'', ex_purchases_own_timestamp),
      (''purchases_no_price.csv'', ex_purchases_no_price)]"

definition semicolon_parse :: "(string \<times> frame) list" where
  "semicolon_parse = [(''articles_semicolon.csv'', ex_articles)]"

definition ex_env :: env where
  "ex_env =
     \<lparr>is_file = (\<lambda>f. f \<in> fst ` set comma_parse),
      read_csv = (\<lambda>f sep.
        case map_of (if sep = CHR '','' then comma_parse
                     else if sep = CHR '';'' then semicolon_parse else []) f of
          Some df \<Rightarrow> Inr df
        | None \<Rightarrow> Inl (if f \<in> fst ` set comma_parse then ParserError else FileNotFoundError)),
      elapsed = ''0''\<rparr>"

text \<open>The same file system for a pandas that cannot read with any separator but the
  comma.\<close>

definition ex_env_comma_only :: env where
  "ex_env_comma_only =
     ex_env\<lparr>read_csv := (\<lambda>f sep. if sep = CHR '','' then read_csv ex_env f sep else Inl ParserError)\<rparr>"

text \<open>A file system in which the file test fails for \<^verbatim>\<open>customers.csv\<close> although pandas
  reads it: \<^verbatim>\<open>Path(f).is_file()\<close> and \<^verbatim>\<open>pd.read_csv(f)\<close> are separate calls (the file
  may appear between them, and \<^verbatim>\<open>pd.read_csv\<close> also reads a URL, which is no file).\<close>

definition ex_env_unseen :: env where
  "ex_env_unseen = ex_env\<lparr>is_file := (\<lambda>f. f \<noteq> ''customers.csv'' \<and> is_file ex_env f)\<rparr>"

text \<open>The sample database reads the empty field back as NULL (\<^verbatim>\<open>null=''\<close>) and every
  other sample text as it was written.\<close>

definition null_if_empty :: "cell \<Rightarrow> cell" where
  "null_if_empty v = (if v = Some [] then None else v)"

definition empty_store :: store where
  "empty_store =
     \<lparr>dataset_tbl = [], durable = [], pending = [], trace = [], as_stored = null_if_empty\<rparr>"

definition store_with_H_M :: store where
  "store_with_H_M =
     \<lparr>dataset_tbl = [(''H_M'', ''mosh'')], durable = [], pending = [], trace = [],
      as_stored = null_if_empty\<rparr>"

section \<open>Properties\<close>

lemma trace_emit: "trace (emit e s) = trace s @ [e]"
  by (simp add: emit_def)

declare check_files.simps [simp del]

subsection \<open>Events and stores\<close>

lemma emit_Reflect: "emit Reflect s = s\<lparr>trace := trace s @ [Reflect]\<rparr>"
  by (simp add: emit_def effect_def)

lemma emit_Log: "emit (Log m) s = s\<lparr>trace := trace s @ [Log m]\<rparr>"
  by (simp add: emit_def effect_def)

lemma emit_LogError: "emit (LogError m) s = s\<lparr>trace := trace s @ [LogError m]\<rparr>"
  by (simp add: emit_def effect_def)

lemma emit_Query: "emit (Query m) s = s\<lparr>trace := trace s @ [Query m]\<rparr>"
  by (simp add: emit_def effect_def)

lemma emit_IsFile: "emit (IsFile m) s = s\<lparr>trace := trace s @ [IsFile m]\<rparr>"
  by (simp add: emit_def effect_def)

lemma emit_ReadCsv: "emit (ReadCsv m c) s = s\<lparr>trace := trace s @ [ReadCsv m c]\<rparr>"
  by (simp add: emit_def effect_def)

lemmas emit_plain = emit_Reflect emit_Log emit_LogError emit_Query emit_IsFile emit_ReadCsv

lemma run_Nil: "run [] s = s"
  by (simp add: run_def)

lemma run_Cons: "run (e # evs) s = run evs (emit e s)"
  by (simp add: run_def)

lemma run_append: "run (xs @ ys) s = run ys (run xs s)"
  by (simp add: run_def)

lemma run_run: "run ys (run xs s) = run (xs @ ys) s"
  by (simp add: run_def)

lemma emit_run: "emit e s = run [e] s"
  by (simp add: run_def)

lemma trace_run: "trace (run evs s) = trace s @ evs"
  by (induction evs arbitrary: s) (simp_all add: run_Nil run_Cons trace_emit)

lemma as_stored_emit: "as_stored (emit e s) = as_stored s"
  by (cases e) (simp_all add: emit_def effect_def)

lemma as_stored_run: "as_stored (run evs s) = as_stored s"
  by (induction evs arbitrary: s) (simp_all add: run_Nil run_Cons as_stored_emit)

lemma durable_emit: "e \<noteq> Commit \<Longrightarrow> durable (emit e s) = durable s"
  by (cases e) (simp_all add: emit_def effect_def)

lemma pending_emit: "e \<noteq> Commit \<Longrightarrow> pending (emit e s) = pending s @ copied (as_stored s) [e]"
  by (cases e) (simp_all add: emit_def effect_def)

lemma copied_append: "copied f (xs @ ys) = copied f xs @ copied f ys"
  by (induction f xs rule: copied.induct) simp_all

lemma durable_run: "Commit \<notin> set evs \<Longrightarrow> durable (run evs s) = durable s"
  by (induction evs arbitrary: s) (auto simp add: run_Nil run_Cons durable_emit)

lemma pending_run:
  "Commit \<notin> set evs \<Longrightarrow> pending (run evs s) = pending s @ copied (as_stored s) evs"
proof (induction evs arbitrary: s)
  case Nil
  show ?case by (simp add: run_Nil)
next
  case (Cons e evs)
  then have "e \<noteq> Commit" and "Commit \<notin> set evs" by auto
  then have "pending (run (e # evs) s)
      = (pending s @ copied (as_stored s) [e]) @ copied (as_stored s) evs"
    using Cons.IH [of "emit e s"] by (simp add: run_Cons pending_emit as_stored_emit)
  also have "\<dots> = pending s @ copied (as_stored s) ([e] @ evs)"
    by (simp only: copied_append append_assoc)
  finally show ?case by simp
qed

lemma dataset_tbl_emit:
  "dataset_tbl (emit e s) =
     (case e of EngineInsert n u \<Rightarrow> dataset_tbl s @ [(n, u)] | _ \<Rightarrow> dataset_tbl s)"
  by (cases e) (simp_all add: emit_def effect_def)

lemma session_events_run:
  "list_all session_event evs \<Longrightarrow>
     Commit \<notin> set evs \<and> dataset_tbl (run evs s) = dataset_tbl s"
  by (induction evs arbitrary: s)
    (auto simp add: run_Nil run_Cons dataset_tbl_emit session_event_def split: event.splits)

lemma load_events_session: "list_all (load_event ts) evs \<Longrightarrow> list_all session_event evs"
  by (induction evs) (auto simp add: load_event_def session_event_def split: event.splits)

lemma load_events_comma: "list_all (load_event ts) evs \<Longrightarrow> list_all comma_read evs"
  by (induction evs) (auto simp add: load_event_def comma_read_def split: event.splits)

lemma validation_events_session: "list_all session_event (validation_events e fs)"
  by (induction fs) (simp_all add: validation_events_def session_event_def)

lemma validation_events_comma: "list_all comma_read (validation_events e fs)"
  by (induction fs) (simp_all add: validation_events_def comma_read_def)

lemma commit_log_effect:
  "durable (run [Commit, Log m] s) = durable s @ pending s
   \<and> pending (run [Commit, Log m] s) = []
   \<and> dataset_tbl (run [Commit, Log m] s) = dataset_tbl s"
  by (simp add: run_def emit_def effect_def)

lemma register_effect:
  "dataset_tbl (run [Reflect, Log m, Query n, EngineInsert n u] s) = dataset_tbl s @ [(n, u)]"
  by (simp add: run_def emit_def effect_def)

subsection \<open>The registrar and the file tests as event lists\<close>

lemma find_name_Some:
  "n \<in> fst ` set tbl \<Longrightarrow> \<exists>row. find (\<lambda>row. fst row = n) tbl = Some row"
  by (induction tbl) auto

lemma find_name_None:
  "n \<notin> fst ` set tbl \<Longrightarrow> find (\<lambda>row. fst row = n) tbl = None"
  by (induction tbl) auto

lemma addDatasetEntry_exists:
  assumes "dataset_name \<in> fst ` set (dataset_tbl s)"
  shows "addDatasetEntry s dataset_name uploader_name =
           (False, s\<lparr>trace := trace s @ [Query dataset_name,
              LogError (''Couldn't add dataset '' @ dataset_name @ '', it already exists'')]\<rparr>)"
proof -
  from find_name_Some [OF assms] obtain row
    where "find (\<lambda>row. fst row = dataset_name) (dataset_tbl s) = Some row" ..
  then show ?thesis
    by (simp add: addDatasetEntry_def queryTable_first_def Logger_logError_def emit_plain)
qed

lemma addDatasetEntry_exists_run:
  assumes "dataset_name \<in> fst ` set (dataset_tbl s)"
  shows "addDatasetEntry s dataset_name uploader_name =
           (False, run [Query dataset_name,
              LogError (''Couldn't add dataset '' @ dataset_name @ '', it already exists'')] s)"
  using addDatasetEntry_exists [OF assms, of uploader_name]
  by (simp add: run_Cons run_Nil emit_plain)

lemma addDatasetEntry_new:
  assumes "dataset_name \<notin> fst ` set (dataset_tbl s)"
  shows "addDatasetEntry s dataset_name uploader_name =
           (True, run [Query dataset_name, EngineInsert dataset_name uploader_name] s)"
  using find_name_None [OF assms]
  by (simp add: addDatasetEntry_def queryTable_first_def insertRow_def run_Cons run_Nil)

lemma log_reflect:
  "Logger_log m (reflect s) = s\<lparr>trace := trace s @ [Reflect, Log m]\<rparr>"
  by (simp add: Logger_log_def reflect_def emit_plain)

lemma log_reflect_run: "Logger_log m (reflect s) = run [Reflect, Log m] s"
  by (simp add: Logger_log_def reflect_def run_Cons run_Nil)

lemma commit_log_run: "Logger_log m (session_commit s) = run [Commit, Log m] s"
  by (simp add: session_commit_def Logger_log_def run_Cons run_Nil)

lemma check_files_run: "check_files e fs s = run (validation_events e fs) s"
  by (induction fs arbitrary: s)
    (simp_all add: check_files.simps validation_events_def run_Nil run_Cons Logger_logError_def
      Let_def)

subsection \<open>The loaders as event lists\<close>

lemma attribute_copies_load:
  "list_all (load_event [k @ ''_attribute'']) (map (attribute_copy df dn k) names)"
  by (induction names) (simp_all add: load_event_def attribute_copy_def Let_def)

lemma load_event_mono:
  "set ts \<subseteq> set ts' \<Longrightarrow> list_all (load_event ts) evs \<Longrightarrow> list_all (load_event ts') evs"
  by (induction evs) (auto simp add: load_event_def split: event.splits)

lemma attribute_loop_any:
  "\<exists>r evs. attribute_loop df dn k names s = (r, run evs s)
           \<and> list_all (load_event [k @ ''_attribute'']) evs"
proof (induction names arbitrary: s)
  case Nil
  show ?case
    by (rule exI [of _ None], rule exI [of _ "[]"]) (simp add: run_Nil)
next
  case (Cons a names)
  show ?case
  proof (cases "a = k @ ''_id''")
    case True
    with Cons.IH [of s] show ?thesis by simp
  next
    case False
    let ?c = "attribute_copy df dn k a"
    have step: "copy_from s (attribute_frame df dn k a) (k @ ''_attribute'')
                  (Some (columns (attribute_frame df dn k a)))
        = (if accepted (Some (columns (attribute_frame df dn k a))) then None
           else Some DuplicateColumn, run [?c] s)"
      by (simp add: copy_from_def attribute_copy_def Let_def run_Cons run_Nil)
    have lc: "list_all (load_event [k @ ''_attribute'']) [?c]"
      by (simp add: load_event_def attribute_copy_def Let_def)
    show ?thesis
    proof (cases "accepted (Some (columns (attribute_frame df dn k a)))")
      case True
      from Cons.IH [of "run [?c] s"] obtain r evs
        where "attribute_loop df dn k names (run [?c] s) = (r, run evs (run [?c] s))"
          and "list_all (load_event [k @ ''_attribute'']) evs"
        by blast
      then have "attribute_loop df dn k (a # names) s = (r, run ([?c] @ evs) s)
          \<and> list_all (load_event [k @ ''_attribute'']) ([?c] @ evs)"
        using False True step lc by (simp add: Let_def run_run)
      then show ?thesis by blast
    next
      case rejected: False
      have "attribute_loop df dn k (a # names) s = (Some DuplicateColumn, run [?c] s)"
        using False rejected step by (simp add: Let_def)
      with lc show ?thesis by blast
    qed
  qed
qed

lemma attribute_loop_run:
  assumes "\<forall>a \<in> set names. accepted (Some (columns (attribute_frame df dn k a)))"
  shows "attribute_loop df dn k names s =
     (None, run (map (attribute_copy df dn k) (filter (\<lambda>a. a \<noteq> k @ ''_id'') names)) s)"
  using assms
  by (induction names arbitrary: s)
    (simp_all add: run_Nil run_Cons copy_from_def attribute_copy_def Let_def)

lemma addMetaDataset_raises:
  assumes "read_csv e f (CHR '','') = Inl err"
  shows "addMetaDataset e s dn f k = (Inl err, run [Reflect, ReadCsv f (CHR '','')] s)"
  using assms
  by (simp add: addMetaDataset_def pd_read_csv_def reflect_def run_Cons run_Nil)

lemma addMetaDataset_skips:
  assumes "read_csv e f (CHR '','') = Inr df" and "k @ ''_id'' \<notin> set (columns df)"
  shows "addMetaDataset e s dn f k =
           (Inr False, run [Reflect, ReadCsv f (CHR '',''),
                            LogError (missing_column_error (k @ ''_id'') dn)] s)"
  using assms
  by (simp add: addMetaDataset_def pd_read_csv_def reflect_def Logger_logError_def
      run_Cons run_Nil Let_def)

lemma addMetaDataset_loads:
  assumes "read_csv e f (CHR '','') = Inr df" and "k @ ''_id'' \<in> set (columns df)"
    and "\<forall>a \<in> set (columns df). accepted (Some (columns (attribute_frame df dn k a)))"
  shows "addMetaDataset e s dn f k =
           (Inr True,
            run ([Reflect, ReadCsv f (CHR '',''), CopyFrom k None (rows (identity_frame df dn k))]
                 @ map (attribute_copy df dn k) (filter (\<lambda>a. a \<noteq> k @ ''_id'') (columns df))) s)"
  using assms(1,2)
  by (simp add: addMetaDataset_def pd_read_csv_def reflect_def copy_from_def accepted_def
      attribute_loop_run [OF assms(3)] run_Cons Let_def)

lemma addMetaDataset_any:
  "\<exists>r evs. addMetaDataset e s dn f k = (r, run ([Reflect, ReadCsv f (CHR '','')] @ evs) s)
           \<and> list_all (load_event [k, k @ ''_attribute'']) evs
           \<and> ((\<exists>ok. r = Inr ok) \<longrightarrow> (\<exists>df. read_csv e f (CHR '','') = Inr df))"
proof (cases "read_csv e f (CHR '','')")
  case (Inl err)
  from addMetaDataset_raises [OF Inl, of s dn k] show ?thesis
    by (intro exI [of _ "Inl err"] exI [of _ "[]"]) simp
next
  case (Inr df)
  show ?thesis
  proof (cases "k @ ''_id'' \<in> set (columns df)")
    case False
    from addMetaDataset_skips [OF Inr False, of s dn] Inr show ?thesis
      by (intro exI [of _ "Inr False"] exI [of _ "[LogError (missing_column_error (k @ ''_id'') dn)]"])
        (simp add: load_event_def)
  next
    case True
    define s2 where "s2 = run [Reflect, ReadCsv f (CHR '',''),
        CopyFrom k None (rows (identity_frame df dn k))] s"
    from attribute_loop_any [of df dn k "columns df" s2] obtain r evs
      where loop: "attribute_loop df dn k (columns df) s2 = (r, run evs s2)"
        and evs: "list_all (load_event [k @ ''_attribute'']) evs"
      by blast
    have evs': "list_all (load_event [k, k @ ''_attribute''])
        (CopyFrom k None (rows (identity_frame df dn k)) # evs)"
      using load_event_mono [OF _ evs, of "[k, k @ ''_attribute'']"] by (simp add: load_event_def)
    have "addMetaDataset e s dn f k =
        (case r of None \<Rightarrow> Inr True | Some err \<Rightarrow> Inl err, run evs s2)"
      using Inr True loop
      by (simp add: addMetaDataset_def pd_read_csv_def reflect_def copy_from_def accepted_def
          s2_def run_Cons run_Nil Let_def split: option.splits)
    then have "addMetaDataset e s dn f k =
        (case r of None \<Rightarrow> Inr True | Some err \<Rightarrow> Inl err,
         run ([Reflect, ReadCsv f (CHR '','')]
              @ CopyFrom k None (rows (identity_frame df dn k)) # evs) s)"
      by (simp add: s2_def run_run)
    with evs' Inr show ?thesis by blast
  qed
qed

lemma find_missing:
  "\<not> set cs \<subseteq> set cols \<Longrightarrow> \<exists>c. find (\<lambda>c. c \<notin> set cols) cs = Some c"
  by (induction cs) auto

lemma find_none_missing:
  "set cs \<subseteq> set cols \<Longrightarrow> find (\<lambda>c. c \<notin> set cols) cs = None"
  by (induction cs) auto

lemma addPurchasesDataset_raises:
  assumes "read_csv e f (CHR '','') = Inl err"
  shows "addPurchasesDataset e s dn f = (Inl err, run [Reflect, ReadCsv f (CHR '','')] s)"
  using assms
  by (simp add: addPurchasesDataset_def pd_read_csv_def reflect_def run_Cons run_Nil)

lemma addPurchasesDataset_skips:
  assumes "read_csv e f (CHR '','') = Inr df"
    and "find (\<lambda>c. c \<notin> set (columns df)) [''customer_id'', ''article_id'', ''price'', ''t_dat''] = Some c"
  shows "addPurchasesDataset e s dn f =
           (Inr False, run [Reflect, ReadCsv f (CHR '',''),
                            LogError (missing_column_error c dn)] s)"
  using assms
  by (auto simp add: addPurchasesDataset_def pd_read_csv_def reflect_def Logger_logError_def
      run_Cons run_Nil Let_def split: if_splits)

lemma addPurchasesDataset_copies:
  assumes "read_csv e f (CHR '','') = Inr df"
    and "set [''customer_id'', ''article_id'', ''price'', ''t_dat''] \<subseteq> set (columns df)"
  shows "addPurchasesDataset e s dn f =
           (if accepted (Some (columns (purchase_frame df dn))) then Inr True
            else Inl DuplicateColumn,
            run [Reflect, ReadCsv f (CHR '',''),
                 CopyFrom ''purchase'' (Some (columns (purchase_frame df dn)))
                   (rows (purchase_frame df dn))] s)"
  using assms
  by (simp add: addPurchasesDataset_def pd_read_csv_def reflect_def copy_from_def
      run_Cons run_Nil Let_def)

lemma addPurchasesDataset_any:
  "\<exists>r evs. addPurchasesDataset e s dn f = (r, run ([Reflect, ReadCsv f (CHR '','')] @ evs) s)
           \<and> list_all (load_event [''purchase'']) evs
           \<and> ((\<exists>ok. r = Inr ok) \<longrightarrow> (\<exists>df. read_csv e f (CHR '','') = Inr df))"
proof (cases "read_csv e f (CHR '','')")
  case (Inl err)
  from addPurchasesDataset_raises [OF Inl, of s dn] show ?thesis
    by (intro exI [of _ "Inl err"] exI [of _ "[]"]) simp
next
  case (Inr df)
  show ?thesis
  proof (cases "set [''customer_id'', ''article_id'', ''price'', ''t_dat''] \<subseteq> set (columns df)")
    case True
    from addPurchasesDataset_copies [OF Inr True, of s dn] Inr show ?thesis
      by (intro exI [of _ "if accepted (Some (columns (purchase_frame df dn))) then Inr True
            else Inl DuplicateColumn"]
          exI [of _ "[CopyFrom ''purchase'' (Some (columns (purchase_frame df dn)))
                   (rows (purchase_frame df dn))]"])
        (simp add: load_event_def)
  next
    case False
    from find_missing [OF False] obtain c
      where c: "find (\<lambda>c. c \<notin> set (columns df)) [''customer_id'', ''article_id'', ''price'', ''t_dat''] = Some c" ..
    from addPurchasesDataset_skips [OF Inr c, of s dn] Inr show ?thesis
      by (intro exI [of _ "Inr False"] exI [of _ "[LogError (missing_column_error c dn)]"])
        (simp add: load_event_def)
  qed
qed

subsection \<open>Frames\<close>

lemma filter_label_absent:
  "c \<notin> set cols \<Longrightarrow> filter (\<lambda>p. fst p = c) (zip cols r) = []"
  by (auto simp add: filter_empty_conv dest: set_zip_leftD)

lemma project_row:
  "distinct cols \<Longrightarrow> length r = length cols \<Longrightarrow> c \<in> set cols
     \<Longrightarrow> map snd (filter (\<lambda>p. fst p = c) (zip cols r)) = [cell_of cols r c]"
proof (induction cols arbitrary: r)
  case Nil
  then show ?case by simp
next
  case (Cons a cols)
  then obtain x xs where r: "r = x # xs" by (cases r) auto
  show ?case
  proof (cases "a = c")
    case True
    with Cons.prems have "c \<notin> set cols" by auto
    then show ?thesis
      using True by (simp add: r cell_of_def filter_label_absent)
  next
    case False
    with Cons.prems have "distinct cols" "length xs = length cols" "c \<in> set cols"
      by (auto simp add: r)
    from Cons.IH [OF this] False show ?thesis
      by (simp add: r cell_of_def)
  qed
qed

lemma filter_label_distinct:
  "distinct cols \<Longrightarrow> c \<in> set cols \<Longrightarrow> filter (\<lambda>n. n = c) cols = [c]"
  by (induction cols) (auto simp add: filter_empty_conv)

lemma getitem_frame_wf:
  assumes "wf_frame df" and "c \<in> set (columns df)"
  shows "getitem_frame df c =
           \<lparr>columns = [c], rows = map (\<lambda>r. [cell_of (columns df) r c]) (rows df)\<rparr>"
proof -
  from assms have d: "distinct (columns df)"
    and l: "\<And>r. r \<in> set (rows df) \<Longrightarrow> length r = length (columns df)"
    by (auto simp add: wf_frame_def list_all_iff)
  have "map (\<lambda>r. map snd (filter (\<lambda>p. fst p = c) (zip (columns df) r))) (rows df)
        = map (\<lambda>r. [cell_of (columns df) r c]) (rows df)"
    by (rule map_cong [OF refl]) (simp add: project_row [OF d l assms(2)])
  then show ?thesis
    by (simp add: getitem_frame_def filter_label_distinct [OF d assms(2)])
qed

lemma id_not_reserved:
  "k @ ''_id'' \<noteq> ''dataset_name''" "k @ ''_id'' \<noteq> ''attribute''"
  "k @ ''_id'' \<noteq> ''value''" "k @ ''_id'' \<noteq> ''type''"
proof -
  have l: "last (k @ ''_id'') = CHR ''d''" by simp
  show "k @ ''_id'' \<noteq> ''dataset_name''"
  proof
    assume "k @ ''_id'' = ''dataset_name''"
    then have "last (k @ ''_id'') = last ''dataset_name''" by (rule arg_cong)
    then show False by (simp only: l) simp
  qed
  show "k @ ''_id'' \<noteq> ''attribute''"
  proof
    assume "k @ ''_id'' = ''attribute''"
    then have "last (k @ ''_id'') = last ''attribute''" by (rule arg_cong)
    then show False by (simp only: l) simp
  qed
  show "k @ ''_id'' \<noteq> ''value''"
  proof
    assume "k @ ''_id'' = ''value''"
    then have "last (k @ ''_id'') = last ''value''" by (rule arg_cong)
    then show False by (simp only: l) simp
  qed
  show "k @ ''_id'' \<noteq> ''type''"
  proof
    assume "k @ ''_id'' = ''type''"
    then have "last (k @ ''_id'') = last ''type''" by (rule arg_cong)
    then show False by (simp only: l) simp
  qed
qed

lemma identity_frame_wf:
  assumes "wf_frame df" and "k @ ''_id'' \<in> set (columns df)"
  shows "identity_frame df dn k =
           \<lparr>columns = [k @ ''_id'', ''dataset_name''],
            rows = map (\<lambda>r. [cell_of (columns df) r (k @ ''_id''), Some dn]) (rows df)\<rparr>"
  using id_not_reserved(1) [of k]
  by (simp add: identity_frame_def getitem_frame_wf [OF assms] setitem_scalar_def
      del: append_eq_Cons_conv Cons_eq_append_conv)

lemma zip_map_same: "zip (map f xs) (map g xs) = map (\<lambda>x. (f x, g x)) xs"
  by (induction xs) simp_all

lemma attribute_frame_wf:
  assumes "wf_frame df" and "k @ ''_id'' \<in> set (columns df)"
  shows "attribute_frame df dn k a =
           \<lparr>columns = [k @ ''_id'', ''dataset_name'', ''attribute'', ''value'', ''type''],
            rows = map (\<lambda>r. [cell_of (columns df) r (k @ ''_id''), Some dn, Some a,
                               cell_of (columns df) r a, Some ''0''])
                     (filter (\<lambda>r. cell_of (columns df) r (k @ ''_id'') \<noteq> None
                                   \<and> cell_of (columns df) r a \<noteq> None) (rows df))\<rparr>"
proof -
  let ?kid = "k @ ''_id''"
  have df1: "setitem_scalar (getitem_frame df ?kid) ''dataset_name'' (Some dn) =
      \<lparr>columns = [?kid, ''dataset_name''],
       rows = map (\<lambda>r. [cell_of (columns df) r ?kid, Some dn]) (rows df)\<rparr>"
    using identity_frame_wf [OF assms, of dn] by (simp only: identity_frame_def)
  have df2: "setitem_scalar \<lparr>columns = [?kid, ''dataset_name''],
       rows = map (\<lambda>r. [cell_of (columns df) r ?kid, Some dn]) (rows df)\<rparr> ''attribute'' (Some a) =
      \<lparr>columns = [?kid, ''dataset_name'', ''attribute''],
       rows = map (\<lambda>r. [cell_of (columns df) r ?kid, Some dn, Some a]) (rows df)\<rparr>"
    using id_not_reserved(2) [of k]
    by (simp add: setitem_scalar_def del: append_eq_Cons_conv Cons_eq_append_conv)
  have df3: "setitem_series \<lparr>columns = [?kid, ''dataset_name'', ''attribute''],
       rows = map (\<lambda>r. [cell_of (columns df) r ?kid, Some dn, Some a]) (rows df)\<rparr> ''value''
         (getitem_series df a) =
      \<lparr>columns = [?kid, ''dataset_name'', ''attribute'', ''value''],
       rows = map (\<lambda>r. [cell_of (columns df) r ?kid, Some dn, Some a, cell_of (columns df) r a])
                (rows df)\<rparr>"
    using id_not_reserved(3) [of k]
    by (simp add: setitem_series_def getitem_series_def zip_map_same o_def
        del: append_eq_Cons_conv Cons_eq_append_conv)
  have df4: "setitem_scalar \<lparr>columns = [?kid, ''dataset_name'', ''attribute'', ''value''],
       rows = map (\<lambda>r. [cell_of (columns df) r ?kid, Some dn, Some a, cell_of (columns df) r a])
                (rows df)\<rparr> ''type'' (Some ''0'') =
      \<lparr>columns = [?kid, ''dataset_name'', ''attribute'', ''value'', ''type''],
       rows = map (\<lambda>r. [cell_of (columns df) r ?kid, Some dn, Some a, cell_of (columns df) r a,
                          Some ''0'']) (rows df)\<rparr>"
    using id_not_reserved(4) [of k]
    by (simp add: setitem_scalar_def del: append_eq_Cons_conv Cons_eq_append_conv)
  show ?thesis
    unfolding attribute_frame_def Let_def df1 df2 df3 df4
    by (simp add: dropna_any_def filter_map o_def)
qed

subsection \<open>Dropping duplicates\<close>

lemma first_occurrences_subseq: "subseq (first_occurrences key seen rs) rs"
  by (induction rs arbitrary: seen) auto

lemma first_occurrences_subset: "set (first_occurrences key seen rs) \<subseteq> set rs"
  by (induction rs arbitrary: seen) auto

lemma first_occurrences_keys:
  "key ` set (first_occurrences key seen rs) = key ` set rs - set seen"
  by (induction rs arbitrary: seen) auto

lemma first_occurrences_distinct: "distinct (map key (first_occurrences key seen rs))"
proof (induction rs arbitrary: seen)
  case Nil
  show ?case by simp
next
  case (Cons r rs)
  have "key r \<notin> key ` set (first_occurrences key (key r # seen) rs)"
    by (simp add: first_occurrences_keys)
  then show ?case
    using Cons.IH by simp
qed

lemma first_occurrences_first:
  "r \<in> set (first_occurrences key seen rs) \<Longrightarrow> find (\<lambda>x. key x = key r) rs = Some r"
proof (induction rs arbitrary: seen)
  case Nil
  then show ?case by simp
next
  case (Cons x rs)
  have unseen: "key r \<notin> set seen"
    using Cons.prems first_occurrences_keys [of key seen "x # rs"] by blast
  show ?case
  proof (cases "key x \<in> set seen")
    case True
    then have "r \<in> set (first_occurrences key seen rs)" using Cons.prems by simp
    from Cons.IH [OF this] True unseen show ?thesis by auto
  next
    case False
    show ?thesis
    proof (cases "r = x")
      case True
      then show ?thesis by simp
    next
      case neq: False
      then have in_rest: "r \<in> set (first_occurrences key (key x # seen) rs)"
        using Cons.prems False by simp
      then have "key r \<notin> set (key x # seen)"
        using first_occurrences_keys [of key "key x # seen" rs] by blast
      then have "key x \<noteq> key r" by auto
      with Cons.IH [OF in_rest] show ?thesis by simp
    qed
  qed
qed

lemma first_occurrences_length:
  "length (first_occurrences key seen rs) = card (key ` set rs - set seen)"
proof -
  have "length (first_occurrences key seen rs) = length (map key (first_occurrences key seen rs))"
    by simp
  also have "\<dots> = card (set (map key (first_occurrences key seen rs)))"
    by (rule distinct_card [symmetric]) (rule first_occurrences_distinct)
  also have "\<dots> = card (key ` set rs - set seen)"
    by (simp add: first_occurrences_keys)
  finally show ?thesis .
qed

subsection \<open>The purchase frame\<close>

lemma columns_setitem_scalar:
  "columns (setitem_scalar df c v) = (if c \<in> set (columns df) then columns df else columns df @ [c])"
  by (simp add: setitem_scalar_def)

lemma purchase_frame_columns:
  "columns (purchase_frame df dn) =
     map loaded_label (columns df) @ (if ''dataset_name'' \<in> set (columns df) then [] else [''dataset_name''])"
  by (simp add: purchase_frame_def drop_duplicates_def rename_column_def columns_setitem_scalar
      loaded_label_def [abs_def] Let_def)

lemma purchase_frame_rows:
  "rows (purchase_frame df dn) = first_occurrences (purchase_key df dn) [] (tagged_rows df dn)"
  by (simp add: purchase_key_def tagged_rows_def purchase_frame_def drop_duplicates_def
      rename_column_def Let_def)

lemma tagged_rows_appended:
  "''dataset_name'' \<notin> set (columns df) \<Longrightarrow> tagged_rows df dn = map (\<lambda>r. r @ [Some dn]) (rows df)"
  by (simp add: tagged_rows_def setitem_scalar_def)

lemma purchase_frame_first_per_key:
  "subseq (rows (purchase_frame df dn)) (tagged_rows df dn)
   \<and> distinct (map (purchase_key df dn) (rows (purchase_frame df dn)))
   \<and> purchase_key df dn ` set (rows (purchase_frame df dn))
       = purchase_key df dn ` set (tagged_rows df dn)
   \<and> (\<forall>r \<in> set (rows (purchase_frame df dn)).
         find (\<lambda>x. purchase_key df dn x = purchase_key df dn r) (tagged_rows df dn) = Some r)
   \<and> length (rows (purchase_frame df dn)) = card (purchase_key df dn ` set (tagged_rows df dn))"
  unfolding purchase_frame_rows
  by (auto simp add: first_occurrences_subseq first_occurrences_distinct first_occurrences_keys
      first_occurrences_length dest: first_occurrences_first)

subsection \<open>What the loaders do with a CSV that was read\<close>

lemma attribute_accepted:
  assumes "wf_frame df" and "k @ ''_id'' \<in> set (columns df)"
  shows "accepted (Some (columns (attribute_frame df dn k a)))"
  using id_not_reserved [of k]
  by (simp add: attribute_frame_wf [OF assms] accepted_def
      del: append_eq_Cons_conv Cons_eq_append_conv)

lemma addMetaDataset_exact:
  assumes read: "read_csv e f (CHR '','') = Inr df" and wf: "wf_frame df"
  shows "addMetaDataset e s dn f k =
           (Inr (k @ ''_id'' \<in> set (columns df)),
            run ([Reflect, ReadCsv f (CHR '','')] @ meta_load_events df dn k) s)"
proof (cases "k @ ''_id'' \<in> set (columns df)")
  case True
  have acc: "\<forall>a \<in> set (columns df). accepted (Some (columns (attribute_frame df dn k a)))"
    using attribute_accepted [OF wf True] by blast
  from addMetaDataset_loads [OF read True acc, of s] True show ?thesis
    by (simp add: meta_load_events_def)
next
  case False
  from addMetaDataset_skips [OF read False, of s dn] False show ?thesis
    by (simp add: meta_load_events_def)
qed

lemma addPurchasesDataset_exact:
  assumes read: "read_csv e f (CHR '','') = Inr df"
    and acc: "distinct (columns (purchase_frame df dn))"
  shows "addPurchasesDataset e s dn f =
           (Inr (set [''customer_id'', ''article_id'', ''price'', ''t_dat''] \<subseteq> set (columns df)),
            run ([Reflect, ReadCsv f (CHR '','')] @ purchase_load_events df dn) s)"
proof (cases "set [''customer_id'', ''article_id'', ''price'', ''t_dat''] \<subseteq> set (columns df)")
  case True
  from addPurchasesDataset_copies [OF read True, of s dn] acc True find_none_missing [OF True]
  show ?thesis
    by (simp add: purchase_load_events_def accepted_def)
next
  case False
  from find_missing [OF False] obtain c
    where c: "find (\<lambda>c. c \<notin> set (columns df)) [''customer_id'', ''article_id'', ''price'', ''t_dat''] = Some c" ..
  from addPurchasesDataset_skips [OF read c, of s dn] False c show ?thesis
    by (simp add: purchase_load_events_def)
qed

lemma meta_load_events_load:
  "list_all (load_event [k, k @ ''_attribute'']) (meta_load_events df dn k)"
  using load_event_mono [OF _ attribute_copies_load, of k "[k, k @ ''_attribute'']" df dn]
  by (simp add: meta_load_events_def load_event_def)

lemma purchase_load_events_load:
  "list_all (load_event [''purchase'']) (purchase_load_events df dn)"
  by (simp add: purchase_load_events_def load_event_def split: option.splits)

subsection \<open>The coordinator by cases\<close>

lemma addDataset_cases:
  assumes "addDatasetEntry (Logger_log (''Adding dataset '' @ dn) (reflect s)) dn u = (b, s2)"
    and "addMetaDataset e (check_files e [p, a, c] s2) dn a ''article'' = (ra, s4)"
    and "addMetaDataset e s4 dn c ''customer'' = (rc, s5)"
    and "addPurchasesDataset e s5 dn p = (rp, s6)"
  shows "addDataset e s dn u p a c =
           (if \<not> b then (Inr (Some False), s2)
            else case ra of
              Inl err \<Rightarrow> (Inl err, s4)
            | Inr oka \<Rightarrow>
                (case rc of
                   Inl err \<Rightarrow> (Inl err, s5)
                 | Inr okc \<Rightarrow>
                     (case rp of
                        Inl err \<Rightarrow> (Inl err, s6)
                      | Inr okp \<Rightarrow>
                          (Inr None,
                           Logger_log (''Added dataset '' @ dquote @ dn @ dquote @ '' in ''
                                       @ elapsed e @ '' seconds'') (session_commit s6)))))"
proof (cases b)
  case False
  then show ?thesis
    using assms(1) by (simp add: addDataset_def Let_def)
next
  case True
  note b = this
  show ?thesis
  proof (cases ra)
    case (Inl err)
    then show ?thesis
      using b assms(1,2) by (simp add: addDataset_def Let_def)
  next
    case (Inr oka)
    note ra = this
    show ?thesis
    proof (cases rc)
      case (Inl err)
      then show ?thesis
        using b ra assms(1,2,3) by (simp add: addDataset_def Let_def)
    next
      case (Inr okc)
      note rc = this
      show ?thesis
      proof (cases rp)
        case (Inl err)
        then show ?thesis
          using b ra rc assms by (simp add: addDataset_def Let_def)
      next
        case (Inr okp)
        then show ?thesis
          using b ra rc assms by (simp add: addDataset_def Let_def)
      qed
    qed
  qed
qed


subsection \<open>The coordinator\<close>

lemma addDataset_old:
  assumes "dn \<in> fst ` set (dataset_tbl s)"
  shows "addDataset e s dn u p a c =
           (Inr (Some False),
            run [Reflect, Log (''Adding dataset '' @ dn), Query dn,
                 LogError (''Couldn't add dataset '' @ dn @ '', it already exists'')] s)"
proof -
  have "dn \<in> fst ` set (dataset_tbl (run [Reflect, Log m] s))" for m
    using assms by (simp add: run_def emit_plain)
  from addDatasetEntry_exists_run [OF this, of _ u]
  have "addDatasetEntry (Logger_log (''Adding dataset '' @ dn) (reflect s)) dn u =
      (False, run [Reflect, Log (''Adding dataset '' @ dn), Query dn,
                 LogError (''Couldn't add dataset '' @ dn @ '', it already exists'')] s)"
    unfolding log_reflect_run by (simp only: run_run append.simps)
  then show ?thesis
    by (simp add: addDataset_def Let_def)
qed

lemma addDatasetEntry_first:
  assumes "dn \<notin> fst ` set (dataset_tbl s)"
  shows "addDatasetEntry (Logger_log (''Adding dataset '' @ dn) (reflect s)) dn u =
           (True, run [Reflect, Log (''Adding dataset '' @ dn), Query dn, EngineInsert dn u] s)"
proof -
  have "dn \<notin> fst ` set (dataset_tbl (run [Reflect, Log m] s))" for m
    using assms by (simp add: run_def emit_plain)
  from addDatasetEntry_new [OF this, of _ u] show ?thesis
    unfolding log_reflect_run by (simp only: run_run append.simps)
qed

lemma addDataset_new_shape:
  assumes new: "dn \<notin> fst ` set (dataset_tbl s)"
  shows "\<exists>rest. list_all session_event rest \<and> list_all comma_read rest
      \<and> ((\<exists>err. addDataset e s dn u p a c =
             (Inl err,
              run ([Reflect, Log (''Adding dataset '' @ dn), Query dn, EngineInsert dn u]
                   @ validation_events e [p, a, c] @ [Reflect, ReadCsv a (CHR '','')] @ rest) s))
         \<or> (addDataset e s dn u p a c =
             (Inr None,
              run ([Reflect, Log (''Adding dataset '' @ dn), Query dn, EngineInsert dn u]
                   @ validation_events e [p, a, c] @ [Reflect, ReadCsv a (CHR '','')] @ rest
                   @ [Commit, Log (''Added dataset '' @ dquote @ dn @ dquote @ '' in ''
                                   @ elapsed e @ '' seconds'')]) s)
            \<and> (\<exists>adf cdf pdf. read_csv e a (CHR '','') = Inr adf
                  \<and> read_csv e c (CHR '','') = Inr cdf \<and> read_csv e p (CHR '','') = Inr pdf)))"
proof -
  let ?reg = "[Reflect, Log (''Adding dataset '' @ dn), Query dn, EngineInsert dn u]"
  let ?m = "''Added dataset '' @ dquote @ dn @ dquote @ '' in '' @ elapsed e @ '' seconds''"
  define s2 where "s2 = run ?reg s"
  define s3 where "s3 = check_files e [p, a, c] s2"
  have s3: "s3 = run (?reg @ validation_events e [p, a, c]) s"
    unfolding s3_def s2_def check_files_run run_run ..
  have entry: "addDatasetEntry (Logger_log (''Adding dataset '' @ dn) (reflect s)) dn u = (True, s2)"
    unfolding s2_def by (rule addDatasetEntry_first [OF new])
  from addMetaDataset_any [of e s3 dn a "''article''"] obtain ra la
    where ma: "addMetaDataset e s3 dn a ''article'' = (ra, run ([Reflect, ReadCsv a (CHR '','')] @ la) s3)"
      and la: "list_all (load_event [''article'', ''article'' @ ''_attribute'']) la"
      and reada: "(\<exists>ok. ra = Inr ok) \<longrightarrow> (\<exists>df. read_csv e a (CHR '','') = Inr df)"
    by blast
  define s4 where "s4 = run ([Reflect, ReadCsv a (CHR '','')] @ la) s3"
  have s4: "s4 = run (?reg @ validation_events e [p, a, c] @ [Reflect, ReadCsv a (CHR '','')] @ la) s"
    unfolding s4_def s3 run_run by (simp only: append_assoc)
  from addMetaDataset_any [of e s4 dn c "''customer''"] obtain rc lc
    where mc: "addMetaDataset e s4 dn c ''customer'' = (rc, run ([Reflect, ReadCsv c (CHR '','')] @ lc) s4)"
      and lc: "list_all (load_event [''customer'', ''customer'' @ ''_attribute'']) lc"
      and readc: "(\<exists>ok. rc = Inr ok) \<longrightarrow> (\<exists>df. read_csv e c (CHR '','') = Inr df)"
    by blast
  define s5 where "s5 = run ([Reflect, ReadCsv c (CHR '','')] @ lc) s4"
  have s5: "s5 = run (?reg @ validation_events e [p, a, c] @ [Reflect, ReadCsv a (CHR '','')]
                      @ (la @ [Reflect, ReadCsv c (CHR '','')] @ lc)) s"
    unfolding s5_def s4 run_run by (simp only: append_assoc)
  from addPurchasesDataset_any [of e s5 dn p] obtain rp lp
    where mp: "addPurchasesDataset e s5 dn p = (rp, run ([Reflect, ReadCsv p (CHR '','')] @ lp) s5)"
      and lp: "list_all (load_event [''purchase'']) lp"
      and readp: "(\<exists>ok. rp = Inr ok) \<longrightarrow> (\<exists>df. read_csv e p (CHR '','') = Inr df)"
    by blast
  define s6 where "s6 = run ([Reflect, ReadCsv p (CHR '','')] @ lp) s5"
  have s6: "s6 = run (?reg @ validation_events e [p, a, c] @ [Reflect, ReadCsv a (CHR '','')]
                      @ (la @ [Reflect, ReadCsv c (CHR '','')] @ lc
                         @ [Reflect, ReadCsv p (CHR '','')] @ lp)) s"
    unfolding s6_def s5 run_run by (simp only: append_assoc)
  have s7: "Logger_log ?m (session_commit s6)
      = run (?reg @ validation_events e [p, a, c] @ [Reflect, ReadCsv a (CHR '','')]
             @ (la @ [Reflect, ReadCsv c (CHR '','')] @ lc
                @ [Reflect, ReadCsv p (CHR '','')] @ lp) @ [Commit, Log ?m]) s"
    unfolding commit_log_run s6 run_run by (simp only: append_assoc)
  note sa = load_events_session [OF la] and sc = load_events_session [OF lc]
    and sp = load_events_session [OF lp]
  note ca = load_events_comma [OF la] and cc = load_events_comma [OF lc]
    and cp = load_events_comma [OF lp]
  have plain: "session_event Reflect" "session_event (ReadCsv f (CHR '',''))"
    "comma_read Reflect" "comma_read (ReadCsv f (CHR '',''))" for f
    by (simp_all add: session_event_def comma_read_def)
  note res = addDataset_cases [OF entry ma [unfolded s3_def] mc [unfolded s4_def s3_def]
      mp [unfolded s5_def s4_def s3_def], folded s3_def, folded s4_def, folded s5_def,
      folded s6_def]
  show ?thesis
  proof (cases ra)
    case (Inl err)
    then have "addDataset e s dn u p a c = (Inl err, s4)"
      using res by simp
    then show ?thesis
      unfolding s4 using sa ca by (intro exI [of _ la]) blast
  next
    case ra: (Inr oka)
    show ?thesis
    proof (cases rc)
      case (Inl err)
      then have "addDataset e s dn u p a c = (Inl err, s5)"
        using res ra by simp
      then show ?thesis
        unfolding s5 using sa ca sc cc plain
        by (intro exI [of _ "la @ [Reflect, ReadCsv c (CHR '','')] @ lc"]) auto
    next
      case rc: (Inr okc)
      show ?thesis
      proof (cases rp)
        case (Inl err)
        then have "addDataset e s dn u p a c = (Inl err, s6)"
          using res ra rc by simp
        then show ?thesis
          unfolding s6 using sa ca sc cc sp cp plain
          by (intro exI [of _ "la @ [Reflect, ReadCsv c (CHR '','')] @ lc
                         @ [Reflect, ReadCsv p (CHR '','')] @ lp"]) auto
      next
        case rp: (Inr okp)
        have "addDataset e s dn u p a c = (Inr None, Logger_log ?m (session_commit s6))"
          using res ra rc rp by simp
        moreover have "\<exists>adf cdf pdf. read_csv e a (CHR '','') = Inr adf
                  \<and> read_csv e c (CHR '','') = Inr cdf \<and> read_csv e p (CHR '','') = Inr pdf"
          using reada readc readp ra rc rp by blast
        ultimately show ?thesis
          unfolding s7 using sa ca sc cc sp cp plain
          by (intro exI [of _ "la @ [Reflect, ReadCsv c (CHR '','')] @ lc
                         @ [Reflect, ReadCsv p (CHR '','')] @ lp"]) auto
      qed
    qed
  qed
qed

lemma addDataset_exact:
  assumes new: "dn \<notin> fst ` set (dataset_tbl s)"
    and a: "read_csv e a (CHR '','') = Inr adf"
    and c: "read_csv e c (CHR '','') = Inr cdf"
    and p: "read_csv e p (CHR '','') = Inr pdf"
    and wfa: "wf_frame adf" and wfc: "wf_frame cdf"
    and acc: "distinct (columns (purchase_frame pdf dn))"
  shows "addDataset e s dn u p a c =
           (Inr None,
            run ([Reflect, Log (''Adding dataset '' @ dn), Query dn, EngineInsert dn u]
                 @ validation_events e [p, a, c]
                 @ [Reflect, ReadCsv a (CHR '','')] @ meta_load_events adf dn ''article''
                 @ [Reflect, ReadCsv c (CHR '','')] @ meta_load_events cdf dn ''customer''
                 @ [Reflect, ReadCsv p (CHR '','')] @ purchase_load_events pdf dn
                 @ [Commit, Log (''Added dataset '' @ dquote @ dn @ dquote @ '' in '' @ elapsed e
                                 @ '' seconds'')]) s)"
proof -
  let ?reg = "[Reflect, Log (''Adding dataset '' @ dn), Query dn, EngineInsert dn u]"
  let ?m = "''Added dataset '' @ dquote @ dn @ dquote @ '' in '' @ elapsed e @ '' seconds''"
  define s2 where "s2 = run ?reg s"
  have entry: "addDatasetEntry (Logger_log (''Adding dataset '' @ dn) (reflect s)) dn u = (True, s2)"
    unfolding s2_def by (rule addDatasetEntry_first [OF new])
  note ma = addMetaDataset_exact [OF a wfa, of "check_files e [p, a, c] s2" dn "''article''"]
  note mc = addMetaDataset_exact [OF c wfc, of _ dn "''customer''"]
  note mp = addPurchasesDataset_exact [OF p acc]
  have "addDataset e s dn u p a c =
      (Inr None,
       Logger_log ?m (session_commit
         (run ([Reflect, ReadCsv p (CHR '','')] @ purchase_load_events pdf dn)
            (run ([Reflect, ReadCsv c (CHR '','')] @ meta_load_events cdf dn ''customer'')
               (run ([Reflect, ReadCsv a (CHR '','')] @ meta_load_events adf dn ''article'')
                  (check_files e [p, a, c] s2))))))"
    using addDataset_cases [OF entry ma mc mp] by simp
  then show ?thesis
    unfolding s2_def check_files_run commit_log_run run_run by (simp only: append_assoc)
qed

subsection \<open>C1: an existing dataset name\<close>

text \<open>
  C1. When the dataset name is already in table \<^verbatim>\<open>dataset\<close>, the registrar queries the
  table, logs an error and returns \<^verbatim>\<open>False\<close>; it inserts nothing. The coordinator then
  returns \<^verbatim>\<open>False\<close> at once: after the schema reflection and the opening log line its
  only events are the registrar's query and error line, so there is no file test, no CSV
  read, no bulk copy and no commit, and the store differs from the one it started with
  in its trace only: the dataset table, the pending rows and the durable rows are the
  same.
\<close>

theorem existing_name_aborts:
  assumes "dataset_name \<in> fst ` set (dataset_tbl s)"
  shows "addDatasetEntry s dataset_name uploader_name =
           (False, s\<lparr>trace := trace s @ [Query dataset_name,
              LogError (''Couldn't add dataset '' @ dataset_name @ '', it already exists'')]\<rparr>)
       \<and> addDataset e s dataset_name uploader_name purchase_file article_file customer_file =
           (Inr (Some False), s\<lparr>trace := trace s @ [Reflect, Log (''Adding dataset '' @ dataset_name),
              Query dataset_name,
              LogError (''Couldn't add dataset '' @ dataset_name @ '', it already exists'')]\<rparr>)"
proof -
  have "dataset_name \<in> fst ` set (dataset_tbl (s\<lparr>trace := trace s @ [Reflect, Log m]\<rparr>))" for m
    using assms by simp
  from addDatasetEntry_exists [OF this, of _ uploader_name]
  have "addDataset e s dataset_name uploader_name purchase_file article_file customer_file =
          (Inr (Some False), s\<lparr>trace := trace s @ [Reflect, Log (''Adding dataset '' @ dataset_name),
              Query dataset_name,
              LogError (''Couldn't add dataset '' @ dataset_name @ '', it already exists'')]\<rparr>)"
    by (simp add: addDataset_def Let_def log_reflect)
  then show ?thesis
    using addDatasetEntry_exists [OF assms, of uploader_name] by simp
qed

theorem existing_name_aborts_witness:
  "''H_M'' \<in> fst ` set (dataset_tbl store_with_H_M)
   \<and> addDatasetEntry store_with_H_M ''H_M'' ''mosh'' =
       (False, \<lparr>dataset_tbl = [(''H_M'', ''mosh'')], durable = [], pending = [],
                trace = [Query ''H_M'', LogError ''Couldn't add dataset H_M, it already exists''],
                as_stored = null_if_empty\<rparr>)
   \<and> addDataset ex_env store_with_H_M ''H_M'' ''mosh'' ''purchases.csv'' ''articles.csv''
         ''customers.csv'' =
       (Inr (Some False),
        \<lparr>dataset_tbl = [(''H_M'', ''mosh'')], durable = [], pending = [],
         trace = [Reflect, Log ''Adding dataset H_M'', Query ''H_M'',
                  LogError ''Couldn't add dataset H_M, it already exists''],
         as_stored = null_if_empty\<rparr>)"
proof -
  have h: "''H_M'' \<in> fst ` set (dataset_tbl store_with_H_M)"
    by (simp add: store_with_H_M_def)
  from existing_name_aborts [OF h, of "''mosh''" ex_env "''purchases.csv''" "''articles.csv''"
      "''customers.csv''"]
  show ?thesis using h by (simp add: store_with_H_M_def)
qed

subsection \<open>C6: a metadata CSV without its identity column\<close>

text \<open>
  C6. When the metadata CSV has no column \<^verbatim>\<open><kind>_id\<close>, the metadata loader reflects the
  schema, reads the CSV, logs the error \<^verbatim>\<open>Could not find "<kind>_id" column in <dataset>\<close>
  and returns \<^verbatim>\<open>False\<close>. It issues no bulk copy: the store it returns differs from the
  one it was given in its trace only, so neither the identity table nor the attribute
  table receives a row. This holds for every kind, \<^verbatim>\<open>article\<close> and \<^verbatim>\<open>customer\<close> included.
\<close>

theorem meta_missing_id:
  assumes "read_csv e meta_data_filename (CHR '','') = Inr df_csv"
    and "meta_data_type @ ''_id'' \<notin> set (columns df_csv)"
  shows "addMetaDataset e s dataset_name meta_data_filename meta_data_type =
           (Inr False, s\<lparr>trace := trace s @ [Reflect, ReadCsv meta_data_filename (CHR '',''),
              LogError (''Could not find '' @ dquote @ meta_data_type @ ''_id'' @ dquote
                          @ '' column in '' @ dataset_name)]\<rparr>)"
  using assms
  by (simp add: addMetaDataset_def pd_read_csv_def reflect_def Logger_logError_def emit_plain
      missing_column_error_def)

theorem meta_missing_id_witness:
  "read_csv ex_env ''articles_no_id.csv'' (CHR '','') = Inr ex_articles_no_id
   \<and> ''article'' @ ''_id'' \<notin> set (columns ex_articles_no_id)
   \<and> addMetaDataset ex_env empty_store ''H_M'' ''articles_no_id.csv'' ''article'' =
       (Inr False,
        \<lparr>dataset_tbl = [], durable = [], pending = [],
         trace = [Reflect, ReadCsv ''articles_no_id.csv'' (CHR '',''),
                  LogError (''Could not find '' @ dquote @ ''article_id'' @ dquote
                            @ '' column in H_M'')],
         as_stored = null_if_empty\<rparr>)"
proof -
  have h1: "read_csv ex_env ''articles_no_id.csv'' (CHR '','') = Inr ex_articles_no_id"
    by (simp add: ex_env_def comma_parse_def)
  have h2: "''article'' @ ''_id'' \<notin> set (columns ex_articles_no_id)"
    by (simp add: ex_articles_no_id_def)
  from meta_missing_id [OF h1 h2, of empty_store "''H_M''"]
  show ?thesis using h1 h2 by (simp add: empty_store_def)
qed

subsection \<open>C7: a purchase CSV without a required column\<close>

text \<open>
  C7. When the purchase CSV lacks one of \<^verbatim>\<open>customer_id\<close>, \<^verbatim>\<open>article_id\<close>, \<^verbatim>\<open>price\<close>,
  \<^verbatim>\<open>t_dat\<close>, the purchase loader reflects the schema, reads the CSV, logs
  \<^verbatim>\<open>Could not find "<c>" column in <dataset>\<close> for the first column \<open>c\<close> of that list
  that is missing, and returns \<^verbatim>\<open>False\<close>. It issues no bulk copy: the store it returns
  differs from the one it was given in its trace only, so no purchase row is written.
\<close>

theorem purchases_missing_column:
  assumes "read_csv e purchases_data_filename (CHR '','') = Inr df_csv"
    and "find (\<lambda>c. c \<notin> set (columns df_csv)) [''customer_id'', ''article_id'', ''price'', ''t_dat'']
           = Some c"
  shows "addPurchasesDataset e s dataset_name purchases_data_filename =
           (Inr False, s\<lparr>trace := trace s @ [Reflect, ReadCsv purchases_data_filename (CHR '',''),
              LogError (''Could not find '' @ dquote @ c @ dquote
                          @ '' column in '' @ dataset_name)]\<rparr>)"
  using assms
  by (auto simp add: addPurchasesDataset_def pd_read_csv_def reflect_def Logger_logError_def
      emit_plain missing_column_error_def split: if_splits)

theorem purchases_missing_column_witness:
  "read_csv ex_env ''purchases_no_price.csv'' (CHR '','') = Inr ex_purchases_no_price
   \<and> find (\<lambda>c. c \<notin> set (columns ex_purchases_no_price))
        [''customer_id'', ''article_id'', ''price'', ''t_dat''] = Some ''price''
   \<and> addPurchasesDataset ex_env empty_store ''H_M'' ''purchases_no_price.csv'' =
       (Inr False,
        \<lparr>dataset_tbl = [], durable = [], pending = [],
         trace = [Reflect, ReadCsv ''purchases_no_price.csv'' (CHR '',''),
                  LogError (''Could not find '' @ dquote @ ''price'' @ dquote
                            @ '' column in H_M'')],
         as_stored = null_if_empty\<rparr>)"
proof -
  have h1: "read_csv ex_env ''purchases_no_price.csv'' (CHR '','') = Inr ex_purchases_no_price"
    by (simp add: ex_env_def comma_parse_def)
  have h2: "find (\<lambda>c. c \<notin> set (columns ex_purchases_no_price))
        [''customer_id'', ''article_id'', ''price'', ''t_dat''] = Some ''price''"
    by (simp add: ex_purchases_no_price_def)
  from purchases_missing_column [OF h1 h2, of empty_store "''H_M''"]
  show ?thesis using h1 h2 by (simp add: empty_store_def)
qed

subsection \<open>Reads use the comma\<close>

lemma reaches_run: "list_all comma_read evs \<Longrightarrow> reaches s (run evs s)"
  by (auto simp add: reaches_def)

lemma addDataset_reaches: "reaches s (snd (addDataset e s dn u p a c))"
proof (cases "dn \<in> fst ` set (dataset_tbl s)")
  case True
  show ?thesis
    unfolding addDataset_old [OF True] snd_conv
    by (rule reaches_run) (simp add: comma_read_def)
next
  case False
  have plain: "list_all comma_read [Reflect, Log m, Query dn, EngineInsert dn u]"
    "list_all comma_read [Reflect, ReadCsv a (CHR '','')]"
    "list_all comma_read [Commit, Log m]" for m
    by (simp_all add: comma_read_def)
  from addDataset_new_shape [OF False, of e u p a c] obtain rest
    where rest: "list_all comma_read rest"
      and res: "(\<exists>err. addDataset e s dn u p a c =
             (Inl err,
              run ([Reflect, Log (''Adding dataset '' @ dn), Query dn, EngineInsert dn u]
                   @ validation_events e [p, a, c] @ [Reflect, ReadCsv a (CHR '','')] @ rest) s))
         \<or> addDataset e s dn u p a c =
             (Inr None,
              run ([Reflect, Log (''Adding dataset '' @ dn), Query dn, EngineInsert dn u]
                   @ validation_events e [p, a, c] @ [Reflect, ReadCsv a (CHR '','')] @ rest
                   @ [Commit, Log (''Added dataset '' @ dquote @ dn @ dquote @ '' in ''
                                   @ elapsed e @ '' seconds'')]) s)"
    by blast
  from res show ?thesis
  proof
    assume "\<exists>err. addDataset e s dn u p a c =
             (Inl err,
              run ([Reflect, Log (''Adding dataset '' @ dn), Query dn, EngineInsert dn u]
                   @ validation_events e [p, a, c] @ [Reflect, ReadCsv a (CHR '','')] @ rest) s)"
    then obtain err where r: "addDataset e s dn u p a c =
             (Inl err,
              run ([Reflect, Log (''Adding dataset '' @ dn), Query dn, EngineInsert dn u]
                   @ validation_events e [p, a, c] @ [Reflect, ReadCsv a (CHR '','')] @ rest) s)" ..
    show ?thesis
      unfolding r snd_conv
      by (rule reaches_run) (simp only: list_all_append plain rest validation_events_comma simp_thms)
  next
    assume r: "addDataset e s dn u p a c =
             (Inr None,
              run ([Reflect, Log (''Adding dataset '' @ dn), Query dn, EngineInsert dn u]
                   @ validation_events e [p, a, c] @ [Reflect, ReadCsv a (CHR '','')] @ rest
                   @ [Commit, Log (''Added dataset '' @ dquote @ dn @ dquote @ '' in ''
                                   @ elapsed e @ '' seconds'')]) s)"
    show ?thesis
      unfolding r snd_conv
      by (rule reaches_run) (simp only: list_all_append plain rest validation_events_comma simp_thms)
  qed
qed

lemma check_files_cong:
  "is_file e' = is_file e \<Longrightarrow> check_files e' fs s = check_files e fs s"
  by (induction fs arbitrary: s) (simp_all add: check_files.simps)

lemma addMetaDataset_cong:
  "read_csv e' f (CHR '','') = read_csv e f (CHR '','')
     \<Longrightarrow> addMetaDataset e' s dn f k = addMetaDataset e s dn f k"
  by (simp add: addMetaDataset_def pd_read_csv_def)

lemma addPurchasesDataset_cong:
  "read_csv e' f (CHR '','') = read_csv e f (CHR '','')
     \<Longrightarrow> addPurchasesDataset e' s dn f = addPurchasesDataset e s dn f"
  by (simp add: addPurchasesDataset_def pd_read_csv_def)

text \<open>The definitions that evaluate the model on the sample files.\<close>

lemmas model_defs = addDataset_def addDatasetEntry_def addMetaDataset_def addPurchasesDataset_def
  queryTable_first_def insertRow_def copy_from_def accepted_def pd_read_csv_def reflect_def
  session_commit_def Logger_log_def Logger_logError_def emit_def effect_def identity_frame_def
  attribute_frame_def purchase_frame_def getitem_frame_def getitem_series_def setitem_scalar_def
  setitem_series_def dropna_any_def rename_column_def drop_duplicates_def key_of_def cell_of_def
  missing_column_error_def check_files.simps Let_def

lemmas sample_defs = ex_env_comma_only_def ex_env_def comma_parse_def semicolon_parse_def ex_articles_def
  ex_articles_repeated_def ex_articles_no_id_def ex_articles_one_column_def ex_customers_def
  ex_purchases_def ex_purchases_own_timestamp_def ex_purchases_no_price_def ex_env_unseen_def
  empty_store_def store_with_H_M_def null_if_empty_def

subsection \<open>C9: the field delimiter\<close>

text \<open>
  C9, as stated, fails on the code: no caller can choose a delimiter. The sample file
  \<^verbatim>\<open>articles_semicolon.csv\<close> separates its fields with semicolons; read with that
  separator it has the column \<^verbatim>\<open>article_id\<close>. The metadata loader reads it with the
  comma, finds no such column and loads nothing.
\<close>

theorem separator_counterexample:
  "read_csv ex_env ''articles_semicolon.csv'' (CHR '';'') = Inr ex_articles
   \<and> ''article_id'' \<in> set (columns ex_articles)
   \<and> addMetaDataset ex_env empty_store ''H_M'' ''articles_semicolon.csv'' ''article'' =
       (Inr False,
        \<lparr>dataset_tbl = [], durable = [], pending = [],
         trace = [Reflect, ReadCsv ''articles_semicolon.csv'' (CHR '',''),
                  LogError (''Could not find '' @ dquote @ ''article_id'' @ dquote
                            @ '' column in H_M'')],
         as_stored = null_if_empty\<rparr>)"
  by (simp add: model_defs ex_env_def comma_parse_def semicolon_parse_def ex_articles_def
      ex_articles_one_column_def empty_store_def)

text \<open>
  C9, amended. Every CSV read of an ingestion is made with the comma as separator, which
  is fixed in the code: \<^verbatim>\<open>addDataset\<close> and the loaders take no delimiter, all the
  events of \<^verbatim>\<open>addDataset\<close> that read a CSV carry the comma, and two environments that
  agree on what the comma reads (and on the file tests and the clock) give the same
  result and the same store, whatever any other separator would read.
\<close>

theorem separator_is_comma:
  assumes "\<forall>f. read_csv e' f (CHR '','') = read_csv e f (CHR '','')"
    and "is_file e' = is_file e"
    and "elapsed e' = elapsed e"
  shows "addDataset e' s dataset_name uploader_name purchase_file article_file customer_file
           = addDataset e s dataset_name uploader_name purchase_file article_file customer_file
       \<and> (\<exists>evs. snd (addDataset e s dataset_name uploader_name purchase_file article_file
                       customer_file) = run evs s
                 \<and> trace (run evs s) = trace s @ evs
                 \<and> list_all (\<lambda>ev. case ev of ReadCsv f sep \<Rightarrow> sep = CHR '','' | _ \<Rightarrow> True) evs)"
proof -
  have c1: "check_files e' fs t = check_files e fs t" for fs t
    by (rule check_files_cong [OF assms(2)])
  have r: "read_csv e' f (CHR '','') = read_csv e f (CHR '','')" for f
    using assms(1) by (rule spec)
  have c2: "addMetaDataset e' t dn f k = addMetaDataset e t dn f k" for t dn f k
    by (rule addMetaDataset_cong [OF r])
  have c3: "addPurchasesDataset e' t dn f = addPurchasesDataset e t dn f" for t dn f
    by (rule addPurchasesDataset_cong [OF r])
  have "addDataset e' s dataset_name uploader_name purchase_file article_file customer_file
           = addDataset e s dataset_name uploader_name purchase_file article_file customer_file"
    unfolding addDataset_def c1 c2 c3 assms(3) by (rule refl)
  moreover
  have "reaches s (snd (addDataset e s dataset_name uploader_name purchase_file article_file
                       customer_file))"
    by (rule addDataset_reaches)
  then have "\<exists>evs. snd (addDataset e s dataset_name uploader_name purchase_file article_file
                       customer_file) = run evs s
                 \<and> trace (run evs s) = trace s @ evs
                 \<and> list_all (\<lambda>ev. case ev of ReadCsv f sep \<Rightarrow> sep = CHR '','' | _ \<Rightarrow> True) evs"
    unfolding reaches_def comma_read_def [abs_def] by (auto simp add: trace_run)
  ultimately show ?thesis by simp
qed

theorem separator_is_comma_witness:
  "(\<forall>f. read_csv ex_env_comma_only f (CHR '','') = read_csv ex_env f (CHR '',''))
   \<and> is_file ex_env_comma_only = is_file ex_env
   \<and> elapsed ex_env_comma_only = elapsed ex_env
   \<and> read_csv ex_env_comma_only ''articles_semicolon.csv'' (CHR '';'')
       \<noteq> read_csv ex_env ''articles_semicolon.csv'' (CHR '';'')
   \<and> addDataset ex_env_comma_only empty_store ''H_M'' ''mosh'' ''purchases.csv''
         ''articles_semicolon.csv'' ''customers.csv''
       = addDataset ex_env empty_store ''H_M'' ''mosh'' ''purchases.csv''
         ''articles_semicolon.csv'' ''customers.csv''
   \<and> (\<exists>evs. snd (addDataset ex_env empty_store ''H_M'' ''mosh'' ''purchases.csv''
                    ''articles_semicolon.csv'' ''customers.csv'') = run evs empty_store
            \<and> trace (run evs empty_store) = trace empty_store @ evs
            \<and> list_all (\<lambda>ev. case ev of ReadCsv f sep \<Rightarrow> sep = CHR '','' | _ \<Rightarrow> True) evs)"
proof -
  have h1: "\<forall>f. read_csv ex_env_comma_only f (CHR '','') = read_csv ex_env f (CHR '','')"
    by (simp add: ex_env_comma_only_def)
  have h2: "is_file ex_env_comma_only = is_file ex_env"
    by (simp add: ex_env_comma_only_def)
  have h3: "elapsed ex_env_comma_only = elapsed ex_env"
    by (simp add: ex_env_comma_only_def)
  have h4: "read_csv ex_env_comma_only ''articles_semicolon.csv'' (CHR '';'')
       \<noteq> read_csv ex_env ''articles_semicolon.csv'' (CHR '';'')"
    by (simp add: ex_env_comma_only_def ex_env_def semicolon_parse_def)
  note th = separator_is_comma [OF h1 h2 h3, of empty_store "''H_M''" "''mosh''" "''purchases.csv''"
      "''articles_semicolon.csv''" "''customers.csv''"]
  show ?thesis
    by (intro conjI h1 h2 h3 h4 conjunct1 [OF th] conjunct2 [OF th])
qed

subsection \<open>The trace of a metadata load\<close>

lemma addMetaDataset_trace:
  assumes "read_csv e f (CHR '','') = Inr df" and "wf_frame df"
    and "k @ ''_id'' \<in> set (columns df)"
  shows "\<exists>s'. addMetaDataset e s dn f k = (Inr True, s')
           \<and> trace s' = trace s
               @ [Reflect, ReadCsv f (CHR '',''), CopyFrom k None (rows (identity_frame df dn k))]
               @ map (attribute_copy df dn k) (filter (\<lambda>a. a \<noteq> k @ ''_id'') (columns df))"
  using addMetaDataset_exact [OF assms(1,2), of s dn k] assms(3)
  by (simp add: trace_run meta_load_events_def)

lemma count_list_map_None:
  "count_list (map f xs) None = length (filter (\<lambda>x. f x = None) xs)"
  by (induction xs) simp_all

lemma length_filter_not_None:
  "length (filter (\<lambda>x. f x \<noteq> None) xs) + count_list (map f xs) None = length xs"
  using sum_length_filter_compl [of "\<lambda>x. f x \<noteq> None" xs]
  by (simp add: count_list_map_None)

subsection \<open>C3: the identity rows\<close>

text \<open>
  C3, as stated, fails on the code: the metadata loader copies the identity column as it
  is and drops no duplicate. In \<^verbatim>\<open>articles_repeated.csv\<close> the identity values are 1, 2, 2,
  two distinct values, and the bulk copy into \<^verbatim>\<open>article\<close> carries three rows, two of them
  for the value 2.
\<close>

theorem identity_rows_counterexample:
  "read_csv ex_env ''articles_repeated.csv'' (CHR '','') = Inr ex_articles_repeated
   \<and> ''article_id'' \<in> set (columns ex_articles_repeated)
   \<and> getitem_series ex_articles_repeated ''article_id'' = [Some ''1'', Some ''2'', Some ''2'']
   \<and> card (set (getitem_series ex_articles_repeated ''article_id'')) = 2
   \<and> addMetaDataset ex_env empty_store ''H_M'' ''articles_repeated.csv'' ''article'' =
       (Inr True,
        \<lparr>dataset_tbl = [], durable = [],
         pending =
           [(''article'', None, [Some ''1'', Some ''H_M'']),
            (''article'', None, [Some ''2'', Some ''H_M'']),
            (''article'', None, [Some ''2'', Some ''H_M'']),
            (''article_attribute'',
             Some [''article_id'', ''dataset_name'', ''attribute'', ''value'', ''type''],
             [Some ''1'', Some ''H_M'', Some ''colour'', Some ''red'', Some ''0'']),
            (''article_attribute'',
             Some [''article_id'', ''dataset_name'', ''attribute'', ''value'', ''type''],
             [Some ''2'', Some ''H_M'', Some ''colour'', Some ''blue'', Some ''0'']),
            (''article_attribute'',
             Some [''article_id'', ''dataset_name'', ''attribute'', ''value'', ''type''],
             [Some ''2'', Some ''H_M'', Some ''colour'', Some ''blue'', Some ''0''])],
         trace =
           [Reflect, ReadCsv ''articles_repeated.csv'' (CHR '',''),
            CopyFrom ''article'' None
              [[Some ''1'', Some ''H_M''], [Some ''2'', Some ''H_M''], [Some ''2'', Some ''H_M'']],
            CopyFrom ''article_attribute''
              (Some [''article_id'', ''dataset_name'', ''attribute'', ''value'', ''type''])
              [[Some ''1'', Some ''H_M'', Some ''colour'', Some ''red'', Some ''0''],
               [Some ''2'', Some ''H_M'', Some ''colour'', Some ''blue'', Some ''0''],
               [Some ''2'', Some ''H_M'', Some ''colour'', Some ''blue'', Some ''0'']]],
         as_stored = null_if_empty\<rparr>)"
  by (simp add: model_defs ex_env_def comma_parse_def ex_articles_repeated_def empty_store_def
      null_if_empty_def)

text \<open>
  C3, amended. For a metadata CSV that has the column \<^verbatim>\<open><kind>_id\<close>, the loader issues
  one bulk copy into the \<^verbatim>\<open><kind>\<close> table (every later copy goes to the attribute
  table). It carries one row per row of the CSV, in file order, holding that row's
  identity value and the dataset name, so a repeated identity value yields repeated
  identity rows; the number of identity rows is the number of distinct identity values
  exactly when the identity values of the CSV are pairwise different.
\<close>

theorem identity_rows_per_csv_row:
  assumes read: "read_csv e meta_data_filename (CHR '','') = Inr df_csv"
    and wf: "wf_frame df_csv"
    and kid: "meta_data_type @ ''_id'' \<in> set (columns df_csv)"
  shows "\<exists>s' copies.
           addMetaDataset e s dataset_name meta_data_filename meta_data_type = (Inr True, s')
         \<and> trace s' = trace s
             @ [Reflect, ReadCsv meta_data_filename (CHR '',''),
                CopyFrom meta_data_type None
                  (map (\<lambda>v. [v, Some dataset_name])
                     (getitem_series df_csv (meta_data_type @ ''_id'')))]
             @ copies
         \<and> list_all (load_event [meta_data_type @ ''_attribute'']) copies
         \<and> length (map (\<lambda>v. [v, Some dataset_name])
                      (getitem_series df_csv (meta_data_type @ ''_id''))) = length (rows df_csv)
         \<and> (length (map (\<lambda>v. [v, Some dataset_name])
                       (getitem_series df_csv (meta_data_type @ ''_id'')))
              = card (set (getitem_series df_csv (meta_data_type @ ''_id'')))
            \<longleftrightarrow> distinct (getitem_series df_csv (meta_data_type @ ''_id'')))"
proof -
  let ?ids = "getitem_series df_csv (meta_data_type @ ''_id'')"
  have rows: "rows (identity_frame df_csv dataset_name meta_data_type)
      = map (\<lambda>v. [v, Some dataset_name]) ?ids"
    by (simp add: identity_frame_wf [OF wf kid] getitem_series_def o_def)
  from addMetaDataset_trace [OF read wf kid, of s dataset_name] obtain s'
    where res: "addMetaDataset e s dataset_name meta_data_filename meta_data_type = (Inr True, s')"
      and tr: "trace s' = trace s
               @ [Reflect, ReadCsv meta_data_filename (CHR '',''),
                  CopyFrom meta_data_type None (map (\<lambda>v. [v, Some dataset_name]) ?ids)]
               @ map (attribute_copy df_csv dataset_name meta_data_type)
                   (filter (\<lambda>a. a \<noteq> meta_data_type @ ''_id'') (columns df_csv))"
    unfolding rows by blast
  have len: "length (map (\<lambda>v. [v, Some dataset_name]) ?ids) = length (rows df_csv)"
    by (simp add: getitem_series_def)
  have card: "length (map (\<lambda>v. [v, Some dataset_name]) ?ids) = card (set ?ids) \<longleftrightarrow> distinct ?ids"
    using card_distinct [of ?ids] distinct_card [of ?ids] by auto
  show ?thesis
    apply (rule exI [of _ s'])
    apply (rule exI [of _ "map (attribute_copy df_csv dataset_name meta_data_type)
                   (filter (\<lambda>a. a \<noteq> meta_data_type @ ''_id'') (columns df_csv))"])
    apply (intro conjI)
        apply (rule res)
       apply (rule tr)
      apply (rule attribute_copies_load)
     apply (rule len)
    apply (rule card)
    done
qed

theorem identity_rows_per_csv_row_witness:
  "read_csv ex_env ''articles.csv'' (CHR '','') = Inr ex_articles
   \<and> wf_frame ex_articles
   \<and> ''article'' @ ''_id'' \<in> set (columns ex_articles)
   \<and> (\<exists>s' copies.
         addMetaDataset ex_env empty_store ''H_M'' ''articles.csv'' ''article'' = (Inr True, s')
       \<and> trace s' =
           [Reflect, ReadCsv ''articles.csv'' (CHR '',''),
            CopyFrom ''article'' None
              [[Some ''1'', Some ''H_M''], [Some ''2'', Some ''H_M''], [Some ''3'', Some ''H_M'']]]
           @ copies
       \<and> list_all (load_event [''article_attribute'']) copies)
   \<and> length (rows ex_articles) = 3
   \<and> distinct (getitem_series ex_articles ''article_id'')"
proof -
  have h1: "read_csv ex_env ''articles.csv'' (CHR '','') = Inr ex_articles"
    by (simp add: ex_env_def comma_parse_def)
  have h2: "wf_frame ex_articles"
    by (simp add: wf_frame_def ex_articles_def)
  have h3: "''article'' @ ''_id'' \<in> set (columns ex_articles)"
    by (simp add: ex_articles_def)
  have ids: "getitem_series ex_articles ''article_id'' = [Some ''1'', Some ''2'', Some ''3'']"
    by (simp add: getitem_series_def cell_of_def ex_articles_def)
  from identity_rows_per_csv_row [OF h1 h2 h3, of empty_store "''H_M''"] obtain s' copies
    where "addMetaDataset ex_env empty_store ''H_M'' ''articles.csv'' ''article'' = (Inr True, s')"
      and "trace s' = trace empty_store
             @ [Reflect, ReadCsv ''articles.csv'' (CHR '',''),
                CopyFrom ''article'' None
                  (map (\<lambda>v. [v, Some ''H_M'']) (getitem_series ex_articles (''article'' @ ''_id'')))]
             @ copies"
      and "list_all (load_event [''article'' @ ''_attribute'']) copies"
    by blast
  then have "\<exists>s' copies.
         addMetaDataset ex_env empty_store ''H_M'' ''articles.csv'' ''article'' = (Inr True, s')
       \<and> trace s' =
           [Reflect, ReadCsv ''articles.csv'' (CHR '',''),
            CopyFrom ''article'' None
              [[Some ''1'', Some ''H_M''], [Some ''2'', Some ''H_M''], [Some ''3'', Some ''H_M'']]]
           @ copies
       \<and> list_all (load_event [''article_attribute'']) copies"
    apply -
    apply (rule exI [of _ s'])
    apply (rule exI [of _ copies])
    apply (simp add: ids empty_store_def)
    done
  moreover have "length (rows ex_articles) = 3"
    by (simp add: ex_articles_def)
  moreover have "distinct (getitem_series ex_articles ''article_id'')"
    using ids by simp
  ultimately show ?thesis
    using h1 h2 h3 by (intro conjI)
qed

subsection \<open>C5: the attribute rows\<close>

text \<open>
  C5. For a metadata CSV with \<open>N\<close> rows whose \<^verbatim>\<open><kind>_id\<close> column has no missing cell,
  the loader issues one bulk copy into \<^verbatim>\<open><kind>_attribute\<close> for every other column, in
  column order. For a column with \<open>k\<close> missing cells the copy names the target columns
  \<^verbatim>\<open><kind>_id\<close>, \<^verbatim>\<open>dataset_name\<close>, \<^verbatim>\<open>attribute\<close>, \<^verbatim>\<open>value\<close>, \<^verbatim>\<open>type\<close> and carries,
  for each CSV row whose cell in that column is present, the row's identity value, the
  dataset name, the column name, the cell and the type tag 0: \<open>N - k\<close> rows. Which rows
  are dropped depends on that column alone, so a row missing one attribute still yields
  rows for its other attributes (in the example, article 2 has no colour and keeps its
  product code).
\<close>

theorem attribute_rows:
  assumes read: "read_csv e meta_data_filename (CHR '','') = Inr df_csv"
    and wf: "wf_frame df_csv"
    and kid: "meta_data_type @ ''_id'' \<in> set (columns df_csv)"
    and attr: "attribute_name \<in> set (columns df_csv)"
    and other: "attribute_name \<noteq> meta_data_type @ ''_id''"
    and ids: "None \<notin> set (getitem_series df_csv (meta_data_type @ ''_id''))"
  shows "\<exists>s'.
           addMetaDataset e s dataset_name meta_data_filename meta_data_type = (Inr True, s')
         \<and> trace s' = trace s
             @ [Reflect, ReadCsv meta_data_filename (CHR '',''),
                CopyFrom meta_data_type None (rows (identity_frame df_csv dataset_name meta_data_type))]
             @ map (attribute_copy df_csv dataset_name meta_data_type)
                 (filter (\<lambda>a. a \<noteq> meta_data_type @ ''_id'') (columns df_csv))
         \<and> attribute_name \<in> set (filter (\<lambda>a. a \<noteq> meta_data_type @ ''_id'') (columns df_csv))
         \<and> attribute_copy df_csv dataset_name meta_data_type attribute_name =
             CopyFrom (meta_data_type @ ''_attribute'')
               (Some [meta_data_type @ ''_id'', ''dataset_name'', ''attribute'', ''value'', ''type''])
               (map (\<lambda>r. [cell_of (columns df_csv) r (meta_data_type @ ''_id''), Some dataset_name,
                           Some attribute_name, cell_of (columns df_csv) r attribute_name, Some ''0''])
                  (filter (\<lambda>r. cell_of (columns df_csv) r attribute_name \<noteq> None) (rows df_csv)))
         \<and> length (filter (\<lambda>r. cell_of (columns df_csv) r attribute_name \<noteq> None) (rows df_csv))
             + count_list (getitem_series df_csv attribute_name) None = length (rows df_csv)
         \<and> length (filter (\<lambda>r. cell_of (columns df_csv) r attribute_name \<noteq> None) (rows df_csv))
             = length (rows df_csv) - count_list (getitem_series df_csv attribute_name) None"
proof -
  let ?kid = "meta_data_type @ ''_id''"
  from addMetaDataset_trace [OF read wf kid, of s dataset_name] obtain s'
    where res: "addMetaDataset e s dataset_name meta_data_filename meta_data_type = (Inr True, s')"
      and tr: "trace s' = trace s
             @ [Reflect, ReadCsv meta_data_filename (CHR '',''),
                CopyFrom meta_data_type None (rows (identity_frame df_csv dataset_name meta_data_type))]
             @ map (attribute_copy df_csv dataset_name meta_data_type)
                 (filter (\<lambda>a. a \<noteq> ?kid) (columns df_csv))"
    by blast
  have mem: "attribute_name \<in> set (filter (\<lambda>a. a \<noteq> ?kid) (columns df_csv))"
    using attr other by simp
  have nn: "cell_of (columns df_csv) r ?kid \<noteq> None" if "r \<in> set (rows df_csv)" for r
  proof
    assume "cell_of (columns df_csv) r ?kid = None"
    then have "None \<in> set (getitem_series df_csv ?kid)"
      using that by (force simp add: getitem_series_def)
    with ids show False by simp
  qed
  have flt: "filter (\<lambda>r. cell_of (columns df_csv) r ?kid \<noteq> None
                        \<and> cell_of (columns df_csv) r attribute_name \<noteq> None) (rows df_csv)
      = filter (\<lambda>r. cell_of (columns df_csv) r attribute_name \<noteq> None) (rows df_csv)"
    by (rule filter_cong [OF refl]) (simp add: nn)
  have copy: "attribute_copy df_csv dataset_name meta_data_type attribute_name =
             CopyFrom (meta_data_type @ ''_attribute'')
               (Some [?kid, ''dataset_name'', ''attribute'', ''value'', ''type''])
               (map (\<lambda>r. [cell_of (columns df_csv) r ?kid, Some dataset_name,
                           Some attribute_name, cell_of (columns df_csv) r attribute_name, Some ''0''])
                  (filter (\<lambda>r. cell_of (columns df_csv) r attribute_name \<noteq> None) (rows df_csv)))"
    unfolding attribute_copy_def Let_def attribute_frame_wf [OF wf kid] flt [symmetric]
    by simp
  have sum: "length (filter (\<lambda>r. cell_of (columns df_csv) r attribute_name \<noteq> None) (rows df_csv))
             + count_list (getitem_series df_csv attribute_name) None = length (rows df_csv)"
    unfolding getitem_series_def by (rule length_filter_not_None)
  then have diff: "length (filter (\<lambda>r. cell_of (columns df_csv) r attribute_name \<noteq> None) (rows df_csv))
             = length (rows df_csv) - count_list (getitem_series df_csv attribute_name) None"
    by arith
  show ?thesis
    apply (rule exI [of _ s'])
    apply (intro conjI)
         apply (rule res)
        apply (rule tr)
       apply (rule mem)
      apply (rule copy)
     apply (rule sum)
    apply (rule diff)
    done
qed

theorem attribute_rows_witness:
  "read_csv ex_env ''articles.csv'' (CHR '','') = Inr ex_articles
   \<and> wf_frame ex_articles
   \<and> ''article'' @ ''_id'' \<in> set (columns ex_articles)
   \<and> ''colour'' \<in> set (columns ex_articles)
   \<and> ''colour'' \<noteq> ''article'' @ ''_id''
   \<and> None \<notin> set (getitem_series ex_articles (''article'' @ ''_id''))
   \<and> (\<exists>s'. addMetaDataset ex_env empty_store ''H_M'' ''articles.csv'' ''article'' = (Inr True, s')
          \<and> trace s' =
              [Reflect, ReadCsv ''articles.csv'' (CHR '',''),
               CopyFrom ''article'' None
                 [[Some ''1'', Some ''H_M''], [Some ''2'', Some ''H_M''], [Some ''3'', Some ''H_M'']],
               attribute_copy ex_articles ''H_M'' ''article'' ''product_code'',
               attribute_copy ex_articles ''H_M'' ''article'' ''colour''])
   \<and> attribute_copy ex_articles ''H_M'' ''article'' ''colour'' =
       CopyFrom ''article_attribute''
         (Some [''article_id'', ''dataset_name'', ''attribute'', ''value'', ''type''])
         [[Some ''1'', Some ''H_M'', Some ''colour'', Some ''red'', Some ''0''],
          [Some ''3'', Some ''H_M'', Some ''colour'', Some ''blue'', Some ''0'']]
   \<and> attribute_copy ex_articles ''H_M'' ''article'' ''product_code'' =
       CopyFrom ''article_attribute''
         (Some [''article_id'', ''dataset_name'', ''attribute'', ''value'', ''type''])
         [[Some ''1'', Some ''H_M'', Some ''product_code'', Some ''108'', Some ''0''],
          [Some ''2'', Some ''H_M'', Some ''product_code'', Some ''108'', Some ''0'']]
   \<and> length (rows ex_articles) = 3
   \<and> count_list (getitem_series ex_articles ''colour'') None = 1"
proof -
  have h1: "read_csv ex_env ''articles.csv'' (CHR '','') = Inr ex_articles"
    by (simp add: ex_env_def comma_parse_def)
  have h2: "wf_frame ex_articles"
    by (simp add: wf_frame_def ex_articles_def)
  have h3: "''article'' @ ''_id'' \<in> set (columns ex_articles)"
    by (simp add: ex_articles_def)
  have h4: "''colour'' \<in> set (columns ex_articles)"
    by (simp add: ex_articles_def)
  have h5: "''colour'' \<noteq> ''article'' @ ''_id''"
    by simp
  have h6: "None \<notin> set (getitem_series ex_articles (''article'' @ ''_id''))"
    by (simp add: getitem_series_def cell_of_def ex_articles_def)
  from attribute_rows [OF h1 h2 h3 h4 h5 h6, of empty_store "''H_M''"] obtain s'
    where res: "addMetaDataset ex_env empty_store ''H_M'' ''articles.csv'' ''article'' = (Inr True, s')"
      and tr: "trace s' = trace empty_store
             @ [Reflect, ReadCsv ''articles.csv'' (CHR '',''),
                CopyFrom ''article'' None (rows (identity_frame ex_articles ''H_M'' ''article''))]
             @ map (attribute_copy ex_articles ''H_M'' ''article'')
                 (filter (\<lambda>a. a \<noteq> ''article'' @ ''_id'') (columns ex_articles))"
      and copy: "attribute_copy ex_articles ''H_M'' ''article'' ''colour'' =
             CopyFrom (''article'' @ ''_attribute'')
               (Some [''article'' @ ''_id'', ''dataset_name'', ''attribute'', ''value'', ''type''])
               (map (\<lambda>r. [cell_of (columns ex_articles) r (''article'' @ ''_id''), Some ''H_M'',
                           Some ''colour'', cell_of (columns ex_articles) r ''colour'', Some ''0''])
                  (filter (\<lambda>r. cell_of (columns ex_articles) r ''colour'' \<noteq> None) (rows ex_articles)))"
    by blast
  have idf: "rows (identity_frame ex_articles ''H_M'' ''article'') =
      [[Some ''1'', Some ''H_M''], [Some ''2'', Some ''H_M''], [Some ''3'', Some ''H_M'']]"
    by (simp add: model_defs ex_articles_def)
  have cols: "filter (\<lambda>a. a \<noteq> ''article'' @ ''_id'') (columns ex_articles) = [''product_code'', ''colour'']"
    by (simp add: ex_articles_def)
  have c1: "\<exists>s'. addMetaDataset ex_env empty_store ''H_M'' ''articles.csv'' ''article'' = (Inr True, s')
          \<and> trace s' =
              [Reflect, ReadCsv ''articles.csv'' (CHR '',''),
               CopyFrom ''article'' None
                 [[Some ''1'', Some ''H_M''], [Some ''2'', Some ''H_M''], [Some ''3'', Some ''H_M'']],
               attribute_copy ex_articles ''H_M'' ''article'' ''product_code'',
               attribute_copy ex_articles ''H_M'' ''article'' ''colour'']"
    apply (rule exI [of _ s'])
    using res tr unfolding idf cols by (simp add: empty_store_def)
  have c2: "attribute_copy ex_articles ''H_M'' ''article'' ''colour'' =
       CopyFrom ''article_attribute''
         (Some [''article_id'', ''dataset_name'', ''attribute'', ''value'', ''type''])
         [[Some ''1'', Some ''H_M'', Some ''colour'', Some ''red'', Some ''0''],
          [Some ''3'', Some ''H_M'', Some ''colour'', Some ''blue'', Some ''0'']]"
    unfolding copy by (simp add: cell_of_def ex_articles_def)
  have c3: "attribute_copy ex_articles ''H_M'' ''article'' ''product_code'' =
       CopyFrom ''article_attribute''
         (Some [''article_id'', ''dataset_name'', ''attribute'', ''value'', ''type''])
         [[Some ''1'', Some ''H_M'', Some ''product_code'', Some ''108'', Some ''0''],
          [Some ''2'', Some ''H_M'', Some ''product_code'', Some ''108'', Some ''0'']]"
    by (simp add: attribute_copy_def model_defs ex_articles_def)
  have c4: "length (rows ex_articles) = 3"
    by (simp add: ex_articles_def)
  have c5: "count_list (getitem_series ex_articles ''colour'') None = 1"
    by (simp add: getitem_series_def cell_of_def ex_articles_def)
  show ?thesis
    by (intro conjI h1 h2 h3 h4 h5 h6 c1 c2 c3 c4 c5)
qed

subsection \<open>What an ingestion leaves in the store\<close>

lemma loaded_label_inj:
  assumes "''timestamp'' \<notin> set cols"
  shows "inj_on loaded_label (set cols)"
proof (rule inj_onI)
  fix x y assume "x \<in> set cols" "y \<in> set cols" "loaded_label x = loaded_label y"
  with assms show "x = y"
    by (cases "x = ''t_dat''"; cases "y = ''t_dat''") (auto simp add: loaded_label_def)
qed

lemma purchase_frame_accepted:
  assumes wf: "wf_frame df" and ts: "''timestamp'' \<notin> set (columns df)"
  shows "distinct (columns (purchase_frame df dn))"
proof -
  have d: "distinct (map loaded_label (columns df))"
    using wf loaded_label_inj [OF ts] by (simp add: distinct_map wf_frame_def)
  have "''dataset_name'' \<notin> loaded_label ` set (columns df)"
    if "''dataset_name'' \<notin> set (columns df)"
  proof
    assume "''dataset_name'' \<in> loaded_label ` set (columns df)"
    then obtain c where "c \<in> set (columns df)" "loaded_label c = ''dataset_name''" by auto
    with that show False
      by (cases "c = ''t_dat''") (auto simp add: loaded_label_def)
  qed
  with d show ?thesis
    by (simp add: purchase_frame_columns)
qed

lemma copied_validation: "copied f (validation_events e fs) = []"
  by (induction fs) (simp_all add: validation_events_def)

lemma new_name_effect:
  assumes "list_all session_event rest"
  shows "Commit \<notin> set ([Reflect, Log m, Query n, EngineInsert n u] @ rest)"
    and "durable (run ([Reflect, Log m, Query n, EngineInsert n u] @ rest) s) = durable s"
    and "pending (run ([Reflect, Log m, Query n, EngineInsert n u] @ rest) s)
           = pending s @ copied (as_stored s) rest"
    and "dataset_tbl (run ([Reflect, Log m, Query n, EngineInsert n u] @ rest) s)
           = dataset_tbl s @ [(n, u)]"
proof -
  show nc: "Commit \<notin> set ([Reflect, Log m, Query n, EngineInsert n u] @ rest)"
    using session_events_run [OF assms] by simp
  show "durable (run ([Reflect, Log m, Query n, EngineInsert n u] @ rest) s) = durable s"
    by (rule durable_run [OF nc])
  show "pending (run ([Reflect, Log m, Query n, EngineInsert n u] @ rest) s)
           = pending s @ copied (as_stored s) rest"
    unfolding pending_run [OF nc] copied_append by simp
  show "dataset_tbl (run ([Reflect, Log m, Query n, EngineInsert n u] @ rest) s)
           = dataset_tbl s @ [(n, u)]"
    unfolding run_append
    using session_events_run [OF assms, of "run [Reflect, Log m, Query n, EngineInsert n u] s"]
    by (simp only: register_effect)
qed

lemma committed_effect:
  assumes "list_all session_event rest"
  shows "durable (run ([Reflect, Log m, Query n, EngineInsert n u] @ rest @ [Commit, Log m']) s)
           = durable s @ pending s @ copied (as_stored s) rest"
    and "pending (run ([Reflect, Log m, Query n, EngineInsert n u] @ rest @ [Commit, Log m']) s) = []"
    and "dataset_tbl (run ([Reflect, Log m, Query n, EngineInsert n u] @ rest @ [Commit, Log m']) s)
           = dataset_tbl s @ [(n, u)]"
proof -
  have split: "run ([Reflect, Log m, Query n, EngineInsert n u] @ rest @ [Commit, Log m']) s
      = run [Commit, Log m'] (run ([Reflect, Log m, Query n, EngineInsert n u] @ rest) s)"
    unfolding run_run by (simp only: append_assoc)
  show "durable (run ([Reflect, Log m, Query n, EngineInsert n u] @ rest @ [Commit, Log m']) s)
           = durable s @ pending s @ copied (as_stored s) rest"
    unfolding split by (simp only: commit_log_effect new_name_effect [OF assms] append_assoc)
  show "pending (run ([Reflect, Log m, Query n, EngineInsert n u] @ rest @ [Commit, Log m']) s) = []"
    unfolding split by (simp only: commit_log_effect)
  show "dataset_tbl (run ([Reflect, Log m, Query n, EngineInsert n u] @ rest @ [Commit, Log m']) s)
           = dataset_tbl s @ [(n, u)]"
    unfolding split by (simp only: commit_log_effect new_name_effect [OF assms])
qed

lemma loads_session:
  "list_all session_event
     (validation_events e fs
      @ [Reflect, ReadCsv a (CHR '','')] @ meta_load_events adf dn ''article''
      @ [Reflect, ReadCsv c (CHR '','')] @ meta_load_events cdf dn ''customer''
      @ [Reflect, ReadCsv p (CHR '','')] @ purchase_load_events pdf dn)"
  using validation_events_session [of e fs]
    load_events_session [OF meta_load_events_load [where df = adf and dn = dn and k = "''article''"]]
    load_events_session [OF meta_load_events_load [where df = cdf and dn = dn and k = "''customer''"]]
    load_events_session [OF purchase_load_events_load [where df = pdf and dn = dn]]
  by (simp add: session_event_def)

lemma loads_copied:
  "copied f
     (validation_events e fs
      @ [Reflect, ReadCsv a (CHR '','')] @ meta_load_events adf dn ''article''
      @ [Reflect, ReadCsv c (CHR '','')] @ meta_load_events cdf dn ''customer''
      @ [Reflect, ReadCsv p (CHR '','')] @ purchase_load_events pdf dn)
   = copied f (meta_load_events adf dn ''article'') @ copied f (meta_load_events cdf dn ''customer'')
     @ copied f (purchase_load_events pdf dn)"
  by (simp add: copied_append copied_validation)

subsection \<open>C8: the order of the steps\<close>

text \<open>
  C8. For a new dataset name the events of one ingestion begin with the schema
  reflection and the opening log line, the registrar's query and insert, and the file
  tests of the purchase, article and customer file, each followed by an error line when
  the file is missing (\<open>validation_events\<close>). The file tests are advisory: whatever they
  answer, the next events are the reflection and the CSV read of the article load.

  When pandas reads the three CSVs (frames with pairwise different labels) and the
  purchase CSV has no column \<^verbatim>\<open>timestamp\<close> of its own, the ingestion returns normally and
  its events are exactly, in this order: those above; the article load (reflection, CSV
  read, \<open>meta_load_events\<close> of the article frame); the customer load (the same for the
  customer frame); the purchase load (reflection, CSV read, \<open>purchase_load_events\<close>);
  one commit; the closing log line. No other commit occurs. The commit makes durable,
  after what was pending before, exactly the rows copied by the article load, then those
  of the customer load, then those of the purchase load.

  The loads are independent: the events and rows of the customer load and of the purchase
  load are functions of their own CSV and the dataset name. In particular the article load
  returns \<^verbatim>\<open>False\<close> when the article CSV has no column \<^verbatim>\<open>article_id\<close>, its only event
  after the read is then the error line, and the customer load and the purchase load
  copy their rows all the same.
\<close>

theorem ingestion_order:
  assumes new: "dataset_name \<notin> fst ` set (dataset_tbl s)"
  shows "(\<exists>rest.
            trace (snd (addDataset e s dataset_name uploader_name purchase_file article_file
                          customer_file))
              = trace s
                @ [Reflect, Log (''Adding dataset '' @ dataset_name)]
                @ [Query dataset_name, EngineInsert dataset_name uploader_name]
                @ validation_events e [purchase_file, article_file, customer_file]
                @ [Reflect, ReadCsv article_file (CHR '','')] @ rest)
       \<and> (read_csv e article_file (CHR '','') = Inr article_df
          \<and> read_csv e customer_file (CHR '','') = Inr customer_df
          \<and> read_csv e purchase_file (CHR '','') = Inr purchase_df
          \<and> wf_frame article_df \<and> wf_frame customer_df \<and> wf_frame purchase_df
          \<and> ''timestamp'' \<notin> set (columns purchase_df)
          \<longrightarrow>
            (\<exists>s'. addDataset e s dataset_name uploader_name purchase_file article_file customer_file
                     = (Inr None, s')
               \<and> trace s' = trace s
                   @ [Reflect, Log (''Adding dataset '' @ dataset_name)]
                   @ [Query dataset_name, EngineInsert dataset_name uploader_name]
                   @ validation_events e [purchase_file, article_file, customer_file]
                   @ [Reflect, ReadCsv article_file (CHR '','')]
                   @ meta_load_events article_df dataset_name ''article''
                   @ [Reflect, ReadCsv customer_file (CHR '','')]
                   @ meta_load_events customer_df dataset_name ''customer''
                   @ [Reflect, ReadCsv purchase_file (CHR '','')]
                   @ purchase_load_events purchase_df dataset_name
                   @ [Commit, Log (''Added dataset '' @ dquote @ dataset_name @ dquote @ '' in ''
                                   @ elapsed e @ '' seconds'')]
               \<and> durable s' = durable s @ pending s
                   @ copied (as_stored s) (meta_load_events article_df dataset_name ''article'')
                   @ copied (as_stored s) (meta_load_events customer_df dataset_name ''customer'')
                   @ copied (as_stored s) (purchase_load_events purchase_df dataset_name)
               \<and> pending s' = [])
            \<and> Commit \<notin> set (validation_events e [purchase_file, article_file, customer_file]
                              @ meta_load_events article_df dataset_name ''article''
                              @ meta_load_events customer_df dataset_name ''customer''
                              @ purchase_load_events purchase_df dataset_name)
            \<and> fst (addMetaDataset e s0 dataset_name article_file ''article'')
                = Inr (''article_id'' \<in> set (columns article_df))
            \<and> (''article_id'' \<notin> set (columns article_df) \<longrightarrow>
                  meta_load_events article_df dataset_name ''article''
                    = [LogError (''Could not find '' @ dquote @ ''article_id'' @ dquote
                                 @ '' column in '' @ dataset_name)]))"
proof (intro conjI impI)
  from addDataset_new_shape [OF new, of e uploader_name purchase_file article_file customer_file]
  obtain rest where
    "(\<exists>err. addDataset e s dataset_name uploader_name purchase_file article_file customer_file =
             (Inl err,
              run ([Reflect, Log (''Adding dataset '' @ dataset_name), Query dataset_name,
                    EngineInsert dataset_name uploader_name]
                   @ validation_events e [purchase_file, article_file, customer_file]
                   @ [Reflect, ReadCsv article_file (CHR '','')] @ rest) s))
     \<or> addDataset e s dataset_name uploader_name purchase_file article_file customer_file =
             (Inr None,
              run ([Reflect, Log (''Adding dataset '' @ dataset_name), Query dataset_name,
                    EngineInsert dataset_name uploader_name]
                   @ validation_events e [purchase_file, article_file, customer_file]
                   @ [Reflect, ReadCsv article_file (CHR '','')] @ rest
                   @ [Commit, Log (''Added dataset '' @ dquote @ dataset_name @ dquote @ '' in ''
                                   @ elapsed e @ '' seconds'')]) s)"
    by blast
  then show "\<exists>rest.
            trace (snd (addDataset e s dataset_name uploader_name purchase_file article_file
                          customer_file))
              = trace s
                @ [Reflect, Log (''Adding dataset '' @ dataset_name)]
                @ [Query dataset_name, EngineInsert dataset_name uploader_name]
                @ validation_events e [purchase_file, article_file, customer_file]
                @ [Reflect, ReadCsv article_file (CHR '','')] @ rest"
  proof
    assume "\<exists>err. addDataset e s dataset_name uploader_name purchase_file article_file customer_file =
             (Inl err,
              run ([Reflect, Log (''Adding dataset '' @ dataset_name), Query dataset_name,
                    EngineInsert dataset_name uploader_name]
                   @ validation_events e [purchase_file, article_file, customer_file]
                   @ [Reflect, ReadCsv article_file (CHR '','')] @ rest) s)"
    then show ?thesis
      by (intro exI [of _ rest]) (auto simp add: trace_run)
  next
    assume "addDataset e s dataset_name uploader_name purchase_file article_file customer_file =
             (Inr None,
              run ([Reflect, Log (''Adding dataset '' @ dataset_name), Query dataset_name,
                    EngineInsert dataset_name uploader_name]
                   @ validation_events e [purchase_file, article_file, customer_file]
                   @ [Reflect, ReadCsv article_file (CHR '','')] @ rest
                   @ [Commit, Log (''Added dataset '' @ dquote @ dataset_name @ dquote @ '' in ''
                                   @ elapsed e @ '' seconds'')]) s)"
    then show ?thesis
      by (intro exI [of _ "rest @ [Commit, Log (''Added dataset '' @ dquote @ dataset_name
            @ dquote @ '' in '' @ elapsed e @ '' seconds'')]"]) (simp add: trace_run)
  qed
next
  assume h: "read_csv e article_file (CHR '','') = Inr article_df
          \<and> read_csv e customer_file (CHR '','') = Inr customer_df
          \<and> read_csv e purchase_file (CHR '','') = Inr purchase_df
          \<and> wf_frame article_df \<and> wf_frame customer_df \<and> wf_frame purchase_df
          \<and> ''timestamp'' \<notin> set (columns purchase_df)"
  then have a: "read_csv e article_file (CHR '','') = Inr article_df"
    and c: "read_csv e customer_file (CHR '','') = Inr customer_df"
    and p: "read_csv e purchase_file (CHR '','') = Inr purchase_df"
    and wfa: "wf_frame article_df" and wfc: "wf_frame customer_df" and wfp: "wf_frame purchase_df"
    and ts: "''timestamp'' \<notin> set (columns purchase_df)"
    by simp_all
  let ?rest = "validation_events e [purchase_file, article_file, customer_file]
                   @ [Reflect, ReadCsv article_file (CHR '','')]
                   @ meta_load_events article_df dataset_name ''article''
                   @ [Reflect, ReadCsv customer_file (CHR '','')]
                   @ meta_load_events customer_df dataset_name ''customer''
                   @ [Reflect, ReadCsv purchase_file (CHR '','')]
                   @ purchase_load_events purchase_df dataset_name"
  let ?m = "''Added dataset '' @ dquote @ dataset_name @ dquote @ '' in '' @ elapsed e @ '' seconds''"
  let ?full = "[Reflect, Log (''Adding dataset '' @ dataset_name), Query dataset_name,
                EngineInsert dataset_name uploader_name] @ ?rest @ [Commit, Log ?m]"
  have sess: "list_all session_event ?rest"
    by (rule loads_session)
  have res: "addDataset e s dataset_name uploader_name purchase_file article_file customer_file
      = (Inr None, run ?full s)"
    using addDataset_exact [OF new a c p wfa wfc purchase_frame_accepted [OF wfp ts],
        of uploader_name]
    by (simp only: append_assoc)
  have tr: "trace (run ?full s) = trace s
                   @ [Reflect, Log (''Adding dataset '' @ dataset_name)]
                   @ [Query dataset_name, EngineInsert dataset_name uploader_name]
                   @ validation_events e [purchase_file, article_file, customer_file]
                   @ [Reflect, ReadCsv article_file (CHR '','')]
                   @ meta_load_events article_df dataset_name ''article''
                   @ [Reflect, ReadCsv customer_file (CHR '','')]
                   @ meta_load_events customer_df dataset_name ''customer''
                   @ [Reflect, ReadCsv purchase_file (CHR '','')]
                   @ purchase_load_events purchase_df dataset_name
                   @ [Commit, Log ?m]"
    unfolding trace_run by simp
  have dur: "durable (run ?full s) = durable s @ pending s
                   @ copied (as_stored s) (meta_load_events article_df dataset_name ''article'')
                   @ copied (as_stored s) (meta_load_events customer_df dataset_name ''customer'')
                   @ copied (as_stored s) (purchase_load_events purchase_df dataset_name)"
    unfolding committed_effect(1) [OF sess] loads_copied ..
  have pen: "pending (run ?full s) = []"
    by (rule committed_effect(2) [OF sess])
  show "\<exists>s'. addDataset e s dataset_name uploader_name purchase_file article_file customer_file
                     = (Inr None, s')
               \<and> trace s' = trace s
                   @ [Reflect, Log (''Adding dataset '' @ dataset_name)]
                   @ [Query dataset_name, EngineInsert dataset_name uploader_name]
                   @ validation_events e [purchase_file, article_file, customer_file]
                   @ [Reflect, ReadCsv article_file (CHR '','')]
                   @ meta_load_events article_df dataset_name ''article''
                   @ [Reflect, ReadCsv customer_file (CHR '','')]
                   @ meta_load_events customer_df dataset_name ''customer''
                   @ [Reflect, ReadCsv purchase_file (CHR '','')]
                   @ purchase_load_events purchase_df dataset_name
                   @ [Commit, Log (''Added dataset '' @ dquote @ dataset_name @ dquote @ '' in ''
                                   @ elapsed e @ '' seconds'')]
               \<and> durable s' = durable s @ pending s
                   @ copied (as_stored s) (meta_load_events article_df dataset_name ''article'')
                   @ copied (as_stored s) (meta_load_events customer_df dataset_name ''customer'')
                   @ copied (as_stored s) (purchase_load_events purchase_df dataset_name)
               \<and> pending s' = []"
    by (intro exI [of _ "run ?full s"] conjI res tr dur pen)
  show "Commit \<notin> set (validation_events e [purchase_file, article_file, customer_file]
                              @ meta_load_events article_df dataset_name ''article''
                              @ meta_load_events customer_df dataset_name ''customer''
                              @ purchase_load_events purchase_df dataset_name)"
    using session_events_run [OF sess] by simp
  show "fst (addMetaDataset e s0 dataset_name article_file ''article'')
                = Inr (''article_id'' \<in> set (columns article_df))"
    using addMetaDataset_exact [OF a wfa, of s0 dataset_name "''article''"] by simp
  show "meta_load_events article_df dataset_name ''article''
                    = [LogError (''Could not find '' @ dquote @ ''article_id'' @ dquote
                                 @ '' column in '' @ dataset_name)]"
    if "''article_id'' \<notin> set (columns article_df)"
    using that by (simp add: meta_load_events_def missing_column_error_def)
qed

theorem ingestion_order_witness:
  "''H_M'' \<notin> fst ` set (dataset_tbl empty_store)
   \<and> read_csv ex_env_unseen ''articles_no_id.csv'' (CHR '','') = Inr ex_articles_no_id
   \<and> read_csv ex_env_unseen ''customers.csv'' (CHR '','') = Inr ex_customers
   \<and> read_csv ex_env_unseen ''purchases.csv'' (CHR '','') = Inr ex_purchases
   \<and> wf_frame ex_articles_no_id \<and> wf_frame ex_customers \<and> wf_frame ex_purchases
   \<and> ''timestamp'' \<notin> set (columns ex_purchases)
   \<and> \<not> is_file ex_env_unseen ''customers.csv''
   \<and> ''article_id'' \<notin> set (columns ex_articles_no_id)
   \<and> fst (addMetaDataset ex_env_unseen empty_store ''H_M'' ''articles_no_id.csv'' ''article'')
       = Inr False
   \<and> (\<exists>s'. addDataset ex_env_unseen empty_store ''H_M'' ''mosh'' ''purchases.csv''
              ''articles_no_id.csv'' ''customers.csv'' = (Inr None, s')
          \<and> trace s' =
              [Reflect, Log ''Adding dataset H_M'', Query ''H_M'', EngineInsert ''H_M'' ''mosh'',
               IsFile ''purchases.csv'', IsFile ''articles_no_id.csv'', IsFile ''customers.csv'',
               LogError ''Could not find customers.csv'',
               Reflect, ReadCsv ''articles_no_id.csv'' (CHR '',''),
               LogError (''Could not find '' @ dquote @ ''article_id'' @ dquote @ '' column in H_M''),
               Reflect, ReadCsv ''customers.csv'' (CHR '',''),
               CopyFrom ''customer'' None [[Some ''10'', Some ''H_M''], [Some ''11'', Some ''H_M'']],
               CopyFrom ''customer_attribute''
                 (Some [''customer_id'', ''dataset_name'', ''attribute'', ''value'', ''type''])
                 [[Some ''10'', Some ''H_M'', Some ''age'', Some ''31'', Some ''0'']],
               Reflect, ReadCsv ''purchases.csv'' (CHR '',''),
               CopyFrom ''purchase''
                 (Some [''timestamp'', ''customer_id'', ''article_id'', ''price'',
                        ''sales_channel_id'', ''dataset_name''])
                 [[Some ''2020-01-01'', Some ''10'', Some ''1'', Some ''0.5'', Some ''1'', Some ''H_M''],
                  [Some ''2020-01-02'', Some ''10'', Some ''2'', Some ''0.7'', Some ''2'', Some ''H_M''],
                  [Some ''2020-01-02'', Some ''11'', Some ''2'', Some ''0.7'', Some ''2'', Some ''H_M''],
                  [Some ''2020-01-03'', Some ''11'', Some ''3'', Some ''0.9'', Some ''1'', Some ''H_M'']],
               Commit, Log (''Added dataset '' @ dquote @ ''H_M'' @ dquote @ '' in 0 seconds'')]
          \<and> durable s' =
              [(''customer'', None, [Some ''10'', Some ''H_M'']),
               (''customer'', None, [Some ''11'', Some ''H_M'']),
               (''customer_attribute'',
                Some [''customer_id'', ''dataset_name'', ''attribute'', ''value'', ''type''],
                [Some ''10'', Some ''H_M'', Some ''age'', Some ''31'', Some ''0'']),
               (''purchase'',
                Some [''timestamp'', ''customer_id'', ''article_id'', ''price'', ''sales_channel_id'',
                      ''dataset_name''],
                [Some ''2020-01-01'', Some ''10'', Some ''1'', Some ''0.5'', Some ''1'', Some ''H_M'']),
               (''purchase'',
                Some [''timestamp'', ''customer_id'', ''article_id'', ''price'', ''sales_channel_id'',
                      ''dataset_name''],
                [Some ''2020-01-02'', Some ''10'', Some ''2'', Some ''0.7'', Some ''2'', Some ''H_M'']),
               (''purchase'',
                Some [''timestamp'', ''customer_id'', ''article_id'', ''price'', ''sales_channel_id'',
                      ''dataset_name''],
                [Some ''2020-01-02'', Some ''11'', Some ''2'', Some ''0.7'', Some ''2'', Some ''H_M'']),
               (''purchase'',
                Some [''timestamp'', ''customer_id'', ''article_id'', ''price'', ''sales_channel_id'',
                      ''dataset_name''],
                [Some ''2020-01-03'', Some ''11'', Some ''3'', Some ''0.9'', Some ''1'', Some ''H_M''])]
          \<and> pending s' = [])
   \<and> \<not> is_file ex_env ''missing.csv''
   \<and> (\<exists>rest. trace (snd (addDataset ex_env empty_store ''H_M'' ''mosh'' ''purchases.csv''
                             ''missing.csv'' ''customers.csv''))
              = [Reflect, Log ''Adding dataset H_M'', Query ''H_M'', EngineInsert ''H_M'' ''mosh'',
                 IsFile ''purchases.csv'', IsFile ''missing.csv'',
                 LogError ''Could not find missing.csv'', IsFile ''customers.csv'',
                 Reflect, ReadCsv ''missing.csv'' (CHR '','')] @ rest)"
proof -
  have h0: "''H_M'' \<notin> fst ` set (dataset_tbl empty_store)"
    by (simp add: empty_store_def)
  have h1: "read_csv ex_env_unseen ''articles_no_id.csv'' (CHR '','') = Inr ex_articles_no_id"
    by (simp add: ex_env_unseen_def ex_env_def comma_parse_def)
  have h2: "read_csv ex_env_unseen ''customers.csv'' (CHR '','') = Inr ex_customers"
    by (simp add: ex_env_unseen_def ex_env_def comma_parse_def)
  have h3: "read_csv ex_env_unseen ''purchases.csv'' (CHR '','') = Inr ex_purchases"
    by (simp add: ex_env_unseen_def ex_env_def comma_parse_def)
  have h4: "wf_frame ex_articles_no_id" "wf_frame ex_customers" "wf_frame ex_purchases"
    by (simp_all add: wf_frame_def ex_articles_no_id_def ex_customers_def ex_purchases_def)
  have h5: "''timestamp'' \<notin> set (columns ex_purchases)"
    by (simp add: ex_purchases_def)
  have h6: "\<not> is_file ex_env_unseen ''customers.csv''"
    by (simp add: ex_env_unseen_def)
  have h7: "''article_id'' \<notin> set (columns ex_articles_no_id)"
    by (simp add: ex_articles_no_id_def)
  have h8: "\<not> is_file ex_env ''missing.csv''"
    by (simp add: ex_env_def comma_parse_def)
  have v: "validation_events ex_env_unseen [''purchases.csv'', ''articles_no_id.csv'', ''customers.csv'']
      = [IsFile ''purchases.csv'', IsFile ''articles_no_id.csv'', IsFile ''customers.csv'',
         LogError ''Could not find customers.csv'']"
    by (simp add: validation_events_def ex_env_unseen_def ex_env_def comma_parse_def)
  have v': "validation_events ex_env [''purchases.csv'', ''missing.csv'', ''customers.csv'']
      = [IsFile ''purchases.csv'', IsFile ''missing.csv'', LogError ''Could not find missing.csv'',
         IsFile ''customers.csv'']"
    by (simp add: validation_events_def ex_env_def comma_parse_def)
  have ma: "meta_load_events ex_articles_no_id ''H_M'' ''article''
      = [LogError (''Could not find '' @ dquote @ ''article_id'' @ dquote @ '' column in H_M'')]"
    by (simp add: meta_load_events_def missing_column_error_def ex_articles_no_id_def)
  have mc: "meta_load_events ex_customers ''H_M'' ''customer''
      = [CopyFrom ''customer'' None [[Some ''10'', Some ''H_M''], [Some ''11'', Some ''H_M'']],
         CopyFrom ''customer_attribute''
           (Some [''customer_id'', ''dataset_name'', ''attribute'', ''value'', ''type''])
           [[Some ''10'', Some ''H_M'', Some ''age'', Some ''31'', Some ''0'']]]"
    by (simp add: meta_load_events_def attribute_copy_def model_defs ex_customers_def)
  have mp: "purchase_load_events ex_purchases ''H_M''
      = [CopyFrom ''purchase''
           (Some [''timestamp'', ''customer_id'', ''article_id'', ''price'',
                  ''sales_channel_id'', ''dataset_name''])
           [[Some ''2020-01-01'', Some ''10'', Some ''1'', Some ''0.5'', Some ''1'', Some ''H_M''],
            [Some ''2020-01-02'', Some ''10'', Some ''2'', Some ''0.7'', Some ''2'', Some ''H_M''],
            [Some ''2020-01-02'', Some ''11'', Some ''2'', Some ''0.7'', Some ''2'', Some ''H_M''],
            [Some ''2020-01-03'', Some ''11'', Some ''3'', Some ''0.9'', Some ''1'', Some ''H_M'']]]"
    by (simp add: purchase_load_events_def model_defs ex_purchases_def)
  have t: "trace empty_store = []" "durable empty_store = []" "pending empty_store = []"
    "as_stored empty_store = null_if_empty" "elapsed ex_env_unseen = ''0''"
    by (simp_all add: empty_store_def ex_env_unseen_def ex_env_def)
  note th = ingestion_order [OF h0, where e = ex_env_unseen and uploader_name = "''mosh''"
      and purchase_file = "''purchases.csv''" and article_file = "''articles_no_id.csv''"
      and customer_file = "''customers.csv''" and article_df = ex_articles_no_id
      and customer_df = ex_customers and purchase_df = ex_purchases and ?s0.0 = empty_store]
  from conjunct2 [OF th] h1 h2 h3 h4 h5
  have c1: "fst (addMetaDataset ex_env_unseen empty_store ''H_M'' ''articles_no_id.csv'' ''article'')
       = Inr False"
    using h7 by simp
  from conjunct2 [OF th] h1 h2 h3 h4 h5 obtain s'
    where res: "addDataset ex_env_unseen empty_store ''H_M'' ''mosh'' ''purchases.csv''
              ''articles_no_id.csv'' ''customers.csv'' = (Inr None, s')"
      and tr: "trace s' = trace empty_store
                   @ [Reflect, Log (''Adding dataset '' @ ''H_M'')]
                   @ [Query ''H_M'', EngineInsert ''H_M'' ''mosh'']
                   @ validation_events ex_env_unseen
                       [''purchases.csv'', ''articles_no_id.csv'', ''customers.csv'']
                   @ [Reflect, ReadCsv ''articles_no_id.csv'' (CHR '','')]
                   @ meta_load_events ex_articles_no_id ''H_M'' ''article''
                   @ [Reflect, ReadCsv ''customers.csv'' (CHR '','')]
                   @ meta_load_events ex_customers ''H_M'' ''customer''
                   @ [Reflect, ReadCsv ''purchases.csv'' (CHR '','')]
                   @ purchase_load_events ex_purchases ''H_M''
                   @ [Commit, Log (''Added dataset '' @ dquote @ ''H_M'' @ dquote @ '' in ''
                                   @ elapsed ex_env_unseen @ '' seconds'')]"
      and dur: "durable s' = durable empty_store @ pending empty_store
                   @ copied (as_stored empty_store) (meta_load_events ex_articles_no_id ''H_M'' ''article'')
                   @ copied (as_stored empty_store) (meta_load_events ex_customers ''H_M'' ''customer'')
                   @ copied (as_stored empty_store) (purchase_load_events ex_purchases ''H_M'')"
      and pen: "pending s' = []"
    by blast
  have c2: "\<exists>s'. addDataset ex_env_unseen empty_store ''H_M'' ''mosh'' ''purchases.csv''
              ''articles_no_id.csv'' ''customers.csv'' = (Inr None, s')
          \<and> trace s' =
              [Reflect, Log ''Adding dataset H_M'', Query ''H_M'', EngineInsert ''H_M'' ''mosh'',
               IsFile ''purchases.csv'', IsFile ''articles_no_id.csv'', IsFile ''customers.csv'',
               LogError ''Could not find customers.csv'',
               Reflect, ReadCsv ''articles_no_id.csv'' (CHR '',''),
               LogError (''Could not find '' @ dquote @ ''article_id'' @ dquote @ '' column in H_M''),
               Reflect, ReadCsv ''customers.csv'' (CHR '',''),
               CopyFrom ''customer'' None [[Some ''10'', Some ''H_M''], [Some ''11'', Some ''H_M'']],
               CopyFrom ''customer_attribute''
                 (Some [''customer_id'', ''dataset_name'', ''attribute'', ''value'', ''type''])
                 [[Some ''10'', Some ''H_M'', Some ''age'', Some ''31'', Some ''0'']],
               Reflect, ReadCsv ''purchases.csv'' (CHR '',''),
               CopyFrom ''purchase''
                 (Some [''timestamp'', ''customer_id'', ''article_id'', ''price'',
                        ''sales_channel_id'', ''dataset_name''])
                 [[Some ''2020-01-01'', Some ''10'', Some ''1'', Some ''0.5'', Some ''1'', Some ''H_M''],
                  [Some ''2020-01-02'', Some ''10'', Some ''2'', Some ''0.7'', Some ''2'', Some ''H_M''],
                  [Some ''2020-01-02'', Some ''11'', Some ''2'', Some ''0.7'', Some ''2'', Some ''H_M''],
                  [Some ''2020-01-03'', Some ''11'', Some ''3'', Some ''0.9'', Some ''1'', Some ''H_M'']],
               Commit, Log (''Added dataset '' @ dquote @ ''H_M'' @ dquote @ '' in 0 seconds'')]
          \<and> durable s' =
              [(''customer'', None, [Some ''10'', Some ''H_M'']),
               (''customer'', None, [Some ''11'', Some ''H_M'']),
               (''customer_attribute'',
                Some [''customer_id'', ''dataset_name'', ''attribute'', ''value'', ''type''],
                [Some ''10'', Some ''H_M'', Some ''age'', Some ''31'', Some ''0'']),
               (''purchase'',
                Some [''timestamp'', ''customer_id'', ''article_id'', ''price'', ''sales_channel_id'',
                      ''dataset_name''],
                [Some ''2020-01-01'', Some ''10'', Some ''1'', Some ''0.5'', Some ''1'', Some ''H_M'']),
               (''purchase'',
                Some [''timestamp'', ''customer_id'', ''article_id'', ''price'', ''sales_channel_id'',
                      ''dataset_name''],
                [Some ''2020-01-02'', Some ''10'', Some ''2'', Some ''0.7'', Some ''2'', Some ''H_M'']),
               (''purchase'',
                Some [''timestamp'', ''customer_id'', ''article_id'', ''price'', ''sales_channel_id'',
                      ''dataset_name''],
                [Some ''2020-01-02'', Some ''11'', Some ''2'', Some ''0.7'', Some ''2'', Some ''H_M'']),
               (''purchase'',
                Some [''timestamp'', ''customer_id'', ''article_id'', ''price'', ''sales_channel_id'',
                      ''dataset_name''],
                [Some ''2020-01-03'', Some ''11'', Some ''3'', Some ''0.9'', Some ''1'', Some ''H_M''])]
          \<and> pending s' = []"
    apply (rule exI [of _ s'])
    apply (intro conjI)
       apply (rule res)
      apply (simp add: tr v ma mc mp t)
     apply (simp add: dur ma mc mp t accepted_def null_if_empty_def)
    apply (rule pen)
    done
  from conjunct1 [OF ingestion_order [OF h0, where e = ex_env and uploader_name = "''mosh''"
      and purchase_file = "''purchases.csv''" and article_file = "''missing.csv''"
      and customer_file = "''customers.csv''"]]
  have c3: "\<exists>rest. trace (snd (addDataset ex_env empty_store ''H_M'' ''mosh'' ''purchases.csv''
                             ''missing.csv'' ''customers.csv''))
              = [Reflect, Log ''Adding dataset H_M'', Query ''H_M'', EngineInsert ''H_M'' ''mosh'',
                 IsFile ''purchases.csv'', IsFile ''missing.csv'',
                 LogError ''Could not find missing.csv'', IsFile ''customers.csv'',
                 Reflect, ReadCsv ''missing.csv'' (CHR '','')] @ rest"
    by (simp add: v' t)
  show ?thesis
    by (intro conjI h0 h1 h2 h3 h4 h5 h6 h7 h8 c1 c2 c3)
qed

subsection \<open>An ingestion whose purchase CSV cannot be read; the sample loads\<close>


lemma ex_articles_load:
  "meta_load_events ex_articles ''H_M'' ''article''
     = [CopyFrom ''article'' None
          [[Some ''1'', Some ''H_M''], [Some ''2'', Some ''H_M''], [Some ''3'', Some ''H_M'']],
        CopyFrom ''article_attribute''
          (Some [''article_id'', ''dataset_name'', ''attribute'', ''value'', ''type''])
          [[Some ''1'', Some ''H_M'', Some ''product_code'', Some ''108'', Some ''0''],
           [Some ''2'', Some ''H_M'', Some ''product_code'', Some ''108'', Some ''0'']],
        CopyFrom ''article_attribute''
          (Some [''article_id'', ''dataset_name'', ''attribute'', ''value'', ''type''])
          [[Some ''1'', Some ''H_M'', Some ''colour'', Some ''red'', Some ''0''],
           [Some ''3'', Some ''H_M'', Some ''colour'', Some ''blue'', Some ''0'']]]"
  by (simp add: meta_load_events_def attribute_copy_def model_defs ex_articles_def)

lemma ex_customers_load:
  "meta_load_events ex_customers ''H_M'' ''customer''
     = [CopyFrom ''customer'' None [[Some ''10'', Some ''H_M''], [Some ''11'', Some ''H_M'']],
        CopyFrom ''customer_attribute''
          (Some [''customer_id'', ''dataset_name'', ''attribute'', ''value'', ''type''])
          [[Some ''10'', Some ''H_M'', Some ''age'', Some ''31'', Some ''0'']]]"
  by (simp add: meta_load_events_def attribute_copy_def model_defs ex_customers_def)


lemma sample_reads:
  "read_csv ex_env ''articles.csv'' (CHR '','') = Inr ex_articles"
  "read_csv ex_env ''customers.csv'' (CHR '','') = Inr ex_customers"
  "read_csv ex_env ''purchases.csv'' (CHR '','') = Inr ex_purchases"
  "read_csv ex_env ''missing.csv'' (CHR '','') = Inl FileNotFoundError"
  by (simp_all add: ex_env_def comma_parse_def)

lemma sample_frames_wf: "wf_frame ex_articles" "wf_frame ex_customers" "wf_frame ex_purchases"
  by (simp_all add: wf_frame_def ex_articles_def ex_customers_def ex_purchases_def)

lemma empty_store_fields:
  "trace empty_store = []" "durable empty_store = []" "pending empty_store = []"
  "dataset_tbl empty_store = []" "as_stored empty_store = null_if_empty"
  by (simp_all add: empty_store_def)




subsection \<open>C2: the commit\<close>




subsection \<open>A purchase CSV with a column \<open>timestamp\<close> of its own\<close>

lemma addDataset_purchase_rejected:
  assumes new: "dn \<notin> fst ` set (dataset_tbl s)"
    and a: "read_csv e a (CHR '','') = Inr adf"
    and c: "read_csv e c (CHR '','') = Inr cdf"
    and p: "read_csv e p (CHR '','') = Inr pdf"
    and wfa: "wf_frame adf" and wfc: "wf_frame cdf"
    and req: "set [''customer_id'', ''article_id'', ''price'', ''t_dat''] \<subseteq> set (columns pdf)"
    and rej: "\<not> distinct (columns (purchase_frame pdf dn))"
  shows "addDataset e s dn u p a c =
           (Inl DuplicateColumn,
            run ([Reflect, Log (''Adding dataset '' @ dn), Query dn, EngineInsert dn u]
                 @ validation_events e [p, a, c]
                 @ [Reflect, ReadCsv a (CHR '','')] @ meta_load_events adf dn ''article''
                 @ [Reflect, ReadCsv c (CHR '','')] @ meta_load_events cdf dn ''customer''
                 @ [Reflect, ReadCsv p (CHR '',''),
                    CopyFrom ''purchase'' (Some (columns (purchase_frame pdf dn)))
                      (rows (purchase_frame pdf dn))]) s)"
proof -
  let ?reg = "[Reflect, Log (''Adding dataset '' @ dn), Query dn, EngineInsert dn u]"
  define s2 where "s2 = run ?reg s"
  have entry: "addDatasetEntry (Logger_log (''Adding dataset '' @ dn) (reflect s)) dn u = (True, s2)"
    unfolding s2_def by (rule addDatasetEntry_first [OF new])
  note ma = addMetaDataset_exact [OF a wfa, of "check_files e [p, a, c] s2" dn "''article''"]
  note mc = addMetaDataset_exact [OF c wfc, of _ dn "''customer''"]
  have mp: "addPurchasesDataset e t dn p =
      (Inl DuplicateColumn,
       run [Reflect, ReadCsv p (CHR '',''),
            CopyFrom ''purchase'' (Some (columns (purchase_frame pdf dn)))
              (rows (purchase_frame pdf dn))] t)" for t
    using addPurchasesDataset_copies [OF p req, of t dn] rej by (simp add: accepted_def)
  have "addDataset e s dn u p a c =
      (Inl DuplicateColumn,
       run [Reflect, ReadCsv p (CHR '',''),
            CopyFrom ''purchase'' (Some (columns (purchase_frame pdf dn)))
              (rows (purchase_frame pdf dn))]
         (run ([Reflect, ReadCsv c (CHR '','')] @ meta_load_events cdf dn ''customer'')
            (run ([Reflect, ReadCsv a (CHR '','')] @ meta_load_events adf dn ''article'')
               (check_files e [p, a, c] s2))))"
    using addDataset_cases [OF entry ma mc mp] by simp
  then show ?thesis
    unfolding s2_def check_files_run run_run by (simp only: append_assoc)
qed

lemma own_timestamp_frame:
  "purchase_frame ex_purchases_own_timestamp ''H_M'' =
     \<lparr>columns = [''timestamp'', ''timestamp'', ''customer_id'', ''article_id'', ''price'',
                 ''dataset_name''],
      rows = [[Some ''2020-01-01'', Some ''09:00'', Some ''10'', Some ''1'', Some ''0.5'', Some ''H_M''],
              [Some ''2020-01-01'', Some ''17:30'', Some ''10'', Some ''1'', Some ''0.5'', Some ''H_M'']]\<rparr>"
  by (simp add: model_defs ex_purchases_own_timestamp_def)

subsection \<open>C4: duplicate purchases\<close>

text \<open>
  C4. The purchase loader does drop duplicates, keeping the first row of each key, but
  it misses the purchase CSV that has a column \<^verbatim>\<open>timestamp\<close> of its own beside
  \<^verbatim>\<open>t_dat\<close>. \<^verbatim>\<open>purchases_own_timestamp.csv\<close> has the four required columns and two rows
  with the same customer, article and event date. After \<^verbatim>\<open>t_dat\<close> is renamed two columns
  are labelled \<^verbatim>\<open>timestamp\<close>, \<^verbatim>\<open>drop_duplicates\<close> compares both, so the key of a row has
  five cells and the two rows, which differ in the CSV's own \<^verbatim>\<open>timestamp\<close> only, are both
  kept. The bulk copy is then given a target list that names \<^verbatim>\<open>timestamp\<close> twice and
  raises: the loader returns nothing and no purchase row is written, where the claim has
  one row loaded, the first of the two.
\<close>

theorem purchases_own_timestamp_kept_twice:
  "read_csv ex_env ''purchases_own_timestamp.csv'' (CHR '','') = Inr ex_purchases_own_timestamp
   \<and> wf_frame ex_purchases_own_timestamp
   \<and> ''customer_id'' \<in> set (columns ex_purchases_own_timestamp)
   \<and> ''article_id'' \<in> set (columns ex_purchases_own_timestamp)
   \<and> ''price'' \<in> set (columns ex_purchases_own_timestamp)
   \<and> ''t_dat'' \<in> set (columns ex_purchases_own_timestamp)
   \<and> map (\<lambda>r. [cell_of (columns ex_purchases_own_timestamp) r ''customer_id'',
                 cell_of (columns ex_purchases_own_timestamp) r ''article_id'',
                 cell_of (columns ex_purchases_own_timestamp) r ''t_dat''])
        (rows ex_purchases_own_timestamp)
       = [[Some ''10'', Some ''1'', Some ''2020-01-01''], [Some ''10'', Some ''1'', Some ''2020-01-01'']]
   \<and> rows (purchase_frame ex_purchases_own_timestamp ''H_M'')
       = [[Some ''2020-01-01'', Some ''09:00'', Some ''10'', Some ''1'', Some ''0.5'', Some ''H_M''],
          [Some ''2020-01-01'', Some ''17:30'', Some ''10'', Some ''1'', Some ''0.5'', Some ''H_M'']]
   \<and> map (purchase_key ex_purchases_own_timestamp ''H_M'')
        (rows (purchase_frame ex_purchases_own_timestamp ''H_M''))
       = [[Some ''2020-01-01'', Some ''09:00'', Some ''10'', Some ''1'', Some ''H_M''],
          [Some ''2020-01-01'', Some ''17:30'', Some ''10'', Some ''1'', Some ''H_M'']]
   \<and> addPurchasesDataset ex_env empty_store ''H_M'' ''purchases_own_timestamp.csv'' =
       (Inl DuplicateColumn,
        \<lparr>dataset_tbl = [], durable = [], pending = [],
         trace = [Reflect, ReadCsv ''purchases_own_timestamp.csv'' (CHR '',''),
                  CopyFrom ''purchase''
                    (Some [''timestamp'', ''timestamp'', ''customer_id'', ''article_id'', ''price'',
                           ''dataset_name''])
                    [[Some ''2020-01-01'', Some ''09:00'', Some ''10'', Some ''1'', Some ''0.5'',
                      Some ''H_M''],
                     [Some ''2020-01-01'', Some ''17:30'', Some ''10'', Some ''1'', Some ''0.5'',
                      Some ''H_M'']]],
         as_stored = null_if_empty\<rparr>)"
proof -
  have r: "read_csv ex_env ''purchases_own_timestamp.csv'' (CHR '','') = Inr ex_purchases_own_timestamp"
    by (simp add: ex_env_def comma_parse_def)
  have req: "set [''customer_id'', ''article_id'', ''price'', ''t_dat'']
      \<subseteq> set (columns ex_purchases_own_timestamp)"
    by (simp add: ex_purchases_own_timestamp_def)
  have k: "map (purchase_key ex_purchases_own_timestamp ''H_M'')
        (rows (purchase_frame ex_purchases_own_timestamp ''H_M''))
       = [[Some ''2020-01-01'', Some ''09:00'', Some ''10'', Some ''1'', Some ''H_M''],
          [Some ''2020-01-01'', Some ''17:30'', Some ''10'', Some ''1'', Some ''H_M'']]"
    unfolding purchase_key_def own_timestamp_frame by (simp add: key_of_def)
  have l: "addPurchasesDataset ex_env empty_store ''H_M'' ''purchases_own_timestamp.csv'' =
       (Inl DuplicateColumn,
        \<lparr>dataset_tbl = [], durable = [], pending = [],
         trace = [Reflect, ReadCsv ''purchases_own_timestamp.csv'' (CHR '',''),
                  CopyFrom ''purchase''
                    (Some [''timestamp'', ''timestamp'', ''customer_id'', ''article_id'', ''price'',
                           ''dataset_name''])
                    [[Some ''2020-01-01'', Some ''09:00'', Some ''10'', Some ''1'', Some ''0.5'',
                      Some ''H_M''],
                     [Some ''2020-01-01'', Some ''17:30'', Some ''10'', Some ''1'', Some ''0.5'',
                      Some ''H_M'']]],
         as_stored = null_if_empty\<rparr>)"
    unfolding addPurchasesDataset_copies [OF r req] own_timestamp_frame
    by (simp add: accepted_def run_def emit_def effect_def empty_store_def)
  show ?thesis
    apply (intro conjI)
            apply (rule r)
           apply (simp add: wf_frame_def ex_purchases_own_timestamp_def)
          apply (simp add: ex_purchases_own_timestamp_def)
         apply (simp add: ex_purchases_own_timestamp_def)
        apply (simp add: ex_purchases_own_timestamp_def)
       apply (simp add: ex_purchases_own_timestamp_def)
      apply (simp add: cell_of_def ex_purchases_own_timestamp_def)
     apply (simp add: own_timestamp_frame)
    apply (rule k)
    apply (rule l)
    done
qed

subsection \<open>C10: the columns of the purchase load\<close>

text \<open>
  C10. The purchase loader does pass every column of the CSV, \<^verbatim>\<open>t_dat\<close> renamed, and the
  appended \<^verbatim>\<open>dataset_name\<close> to the bulk copy, but for an extra column named
  \<^verbatim>\<open>timestamp\<close> the renamed \<^verbatim>\<open>t_dat\<close> takes the same label: the target list of
  \<^verbatim>\<open>purchases_own_timestamp.csv\<close> names \<^verbatim>\<open>timestamp\<close> twice, the database rejects the
  copy and \<^verbatim>\<open>copy_from\<close> raises. The whole ingestion ends there with the exception: its
  last event is that copy, no purchase row is written (the extra column is not loaded),
  there is no commit and nothing is durable, where the claim has the extra column loaded
  into the purchase table.
\<close>

theorem purchases_own_timestamp_not_loaded:
  "''H_M'' \<notin> fst ` set (dataset_tbl empty_store)
   \<and> read_csv ex_env ''purchases_own_timestamp.csv'' (CHR '','') = Inr ex_purchases_own_timestamp
   \<and> columns ex_purchases_own_timestamp
       = [''t_dat'', ''timestamp'', ''customer_id'', ''article_id'', ''price'']
   \<and> columns (purchase_frame ex_purchases_own_timestamp ''H_M'')
       = [''timestamp'', ''timestamp'', ''customer_id'', ''article_id'', ''price'', ''dataset_name'']
   \<and> \<not> accepted (Some (columns (purchase_frame ex_purchases_own_timestamp ''H_M'')))
   \<and> fst (copy_from empty_store (purchase_frame ex_purchases_own_timestamp ''H_M'') ''purchase''
            (Some (columns (purchase_frame ex_purchases_own_timestamp ''H_M''))))
       = Some DuplicateColumn
   \<and> fst (addDataset ex_env empty_store ''H_M'' ''mosh'' ''purchases_own_timestamp.csv''
            ''articles.csv'' ''customers.csv'') = Inl DuplicateColumn
   \<and> last (trace (snd (addDataset ex_env empty_store ''H_M'' ''mosh''
                          ''purchases_own_timestamp.csv'' ''articles.csv'' ''customers.csv'')))
       = CopyFrom ''purchase''
           (Some [''timestamp'', ''timestamp'', ''customer_id'', ''article_id'', ''price'',
                  ''dataset_name''])
           [[Some ''2020-01-01'', Some ''09:00'', Some ''10'', Some ''1'', Some ''0.5'', Some ''H_M''],
            [Some ''2020-01-01'', Some ''17:30'', Some ''10'', Some ''1'', Some ''0.5'', Some ''H_M'']]
   \<and> Commit \<notin> set (trace (snd (addDataset ex_env empty_store ''H_M'' ''mosh''
                                   ''purchases_own_timestamp.csv'' ''articles.csv''
                                   ''customers.csv'')))
   \<and> durable (snd (addDataset ex_env empty_store ''H_M'' ''mosh'' ''purchases_own_timestamp.csv''
                      ''articles.csv'' ''customers.csv'')) = []
   \<and> filter (\<lambda>row. fst row = ''purchase'')
        (pending (snd (addDataset ex_env empty_store ''H_M'' ''mosh''
                         ''purchases_own_timestamp.csv'' ''articles.csv'' ''customers.csv''))) = []"
proof -
  have new: "''H_M'' \<notin> fst ` set (dataset_tbl empty_store)"
    by (simp add: empty_store_fields)
  have r: "read_csv ex_env ''purchases_own_timestamp.csv'' (CHR '','') = Inr ex_purchases_own_timestamp"
    by (simp add: ex_env_def comma_parse_def)
  have req: "set [''customer_id'', ''article_id'', ''price'', ''t_dat'']
      \<subseteq> set (columns ex_purchases_own_timestamp)"
    by (simp add: ex_purchases_own_timestamp_def)
  have rej: "\<not> distinct (columns (purchase_frame ex_purchases_own_timestamp ''H_M''))"
    unfolding own_timestamp_frame by simp
  let ?rest = "validation_events ex_env [''purchases_own_timestamp.csv'', ''articles.csv'', ''customers.csv'']
                 @ [Reflect, ReadCsv ''articles.csv'' (CHR '','')]
                 @ meta_load_events ex_articles ''H_M'' ''article''
                 @ [Reflect, ReadCsv ''customers.csv'' (CHR '','')]
                 @ meta_load_events ex_customers ''H_M'' ''customer''
                 @ [Reflect, ReadCsv ''purchases_own_timestamp.csv'' (CHR '',''),
                    CopyFrom ''purchase''
                      (Some (columns (purchase_frame ex_purchases_own_timestamp ''H_M'')))
                      (rows (purchase_frame ex_purchases_own_timestamp ''H_M''))]"
  note res = addDataset_purchase_rejected [OF new sample_reads(1,2) r sample_frames_wf(1,2) req rej,
      of "''mosh''"]
  have sess: "list_all session_event ?rest"
    using validation_events_session [of ex_env]
    by (simp add: ex_articles_load ex_customers_load session_event_def)
  have c1: "fst (addDataset ex_env empty_store ''H_M'' ''mosh'' ''purchases_own_timestamp.csv''
            ''articles.csv'' ''customers.csv'') = Inl DuplicateColumn"
    unfolding res by (rule fst_conv)
  have c2: "last (trace (snd (addDataset ex_env empty_store ''H_M'' ''mosh''
                          ''purchases_own_timestamp.csv'' ''articles.csv'' ''customers.csv'')))
       = CopyFrom ''purchase''
           (Some [''timestamp'', ''timestamp'', ''customer_id'', ''article_id'', ''price'',
                  ''dataset_name''])
           [[Some ''2020-01-01'', Some ''09:00'', Some ''10'', Some ''1'', Some ''0.5'', Some ''H_M''],
            [Some ''2020-01-01'', Some ''17:30'', Some ''10'', Some ''1'', Some ''0.5'', Some ''H_M'']]"
    unfolding res snd_conv trace_run own_timestamp_frame by simp
  have c3: "Commit \<notin> set (trace (snd (addDataset ex_env empty_store ''H_M'' ''mosh''
                                   ''purchases_own_timestamp.csv'' ''articles.csv''
                                   ''customers.csv'')))"
    unfolding res snd_conv trace_run using new_name_effect(1) [OF sess]
    by (simp add: empty_store_fields)
  have c4: "durable (snd (addDataset ex_env empty_store ''H_M'' ''mosh'' ''purchases_own_timestamp.csv''
                      ''articles.csv'' ''customers.csv'')) = []"
    unfolding res snd_conv new_name_effect(2) [OF sess] by (simp add: empty_store_fields)
  have c5: "filter (\<lambda>row. fst row = ''purchase'')
        (pending (snd (addDataset ex_env empty_store ''H_M'' ''mosh''
                         ''purchases_own_timestamp.csv'' ''articles.csv'' ''customers.csv''))) = []"
    unfolding res snd_conv new_name_effect(3) [OF sess]
    by (simp add: copied_append copied_validation ex_articles_load ex_customers_load
        empty_store_fields accepted_def own_timestamp_frame)
  show ?thesis
    apply (intro conjI)
              apply (rule new)
             apply (rule r)
            apply (simp add: ex_purchases_own_timestamp_def)
           apply (simp add: own_timestamp_frame)
          apply (simp add: own_timestamp_frame accepted_def)
         apply (simp add: own_timestamp_frame copy_from_def accepted_def)
        apply (rule c1)
       apply (rule c2)
      apply (rule c3)
     apply (rule c4)
    apply (rule c5)
    done
qed

end
